theory Spec2Isabelle
  imports Main
begin

section \<open>Data model of the parts table component\<close>

text \<open>
  The component \<^verbatim>\<open>PartsTableComponent\<close> (parts-table.component.ts) keeps a matrix of
  parts indexed by repair type (TOR) and category, a registry of selected parts and a
  registry of checked (priced) parts.

  Part objects are shared: the same object is referenced from the category list handed to
  the component and from the matrix cells, and two methods write to it in place
  (\<^verbatim>\<open>p.isExcluded = true\<close>, \<^verbatim>\<open>p.qty = ...\<close>). Part objects therefore live in a
  store, and lists of parts are lists of references into it. The store is total, as a
  reference in the source always denotes an object.

  A field that the source may find missing is an option: \<open>isExcluded\<close> and \<open>qty\<close> of a
  part that never got them, \<^verbatim>\<open>category.repairTypes\<close> and \<^verbatim>\<open>this.categories\<close> (both
  tested with \<^verbatim>\<open>!\<close>), and the fields \<^verbatim>\<open>torColumns\<close> and \<^verbatim>\<open>partsMatrix\<close>, which are
  declared without an initial value. Quantities are only stored and copied, never
  computed with, and are integers here.
\<close>

text \<open>
  Modelled from the spec: the interfaces \<^verbatim>\<open>Part\<close>, \<^verbatim>\<open>CategorizedPart\<close>, \<^verbatim>\<open>TOR\<close>,
  \<^verbatim>\<open>SNRCategory\<close> and \<^verbatim>\<open>DividedParts\<close> are imported by the component from files that are
  not among its sources. The records below have the fields that the component reads and
  writes, which are the fields that the data model of the specification lists. A part has
  no category id or repair-type id of its own, and the two part lists of a repair type
  are arrays, as the component calls \<^verbatim>\<open>map\<close> and spreads them without a test.
\<close>

type_synonym addr = nat

record part =
  partNumber :: string
  sOS :: string
  isExcluded :: "bool option"
  qty :: "int option"

text \<open>
  \<^verbatim>\<open>CategorizedPart\<close>: a part together with the ids of its category and repair type. The
  fields are named \<open>cpCategoryId\<close> and \<open>cpTorId\<close> because the field names of different
  records share one name space.
\<close>

record categorized_part = part +
  cpCategoryId :: string
  cpTorId :: string

record tor =
  torId :: string
  torTitle :: string
  partsIncluded :: "addr list"
  partsExcluded :: "addr list"

record category =
  categoryId :: string
  title :: string
  repairTypes :: "tor list option"

text \<open>\<^verbatim>\<open>DividedParts<Part>\<close>, the content of a matrix cell.\<close>

record cell =
  included :: "addr list"
  excluded :: "addr list"

subsection \<open>Objects used as dictionaries\<close>

text \<open>
  \<^verbatim>\<open>partsMatrix\<close> is an object literal used as a dictionary, and \<^verbatim>\<open>Object.keys\<close> is called
  on it, so the order of its keys matters. An object is the list of its own properties in
  creation order. \<^verbatim>\<open>Object.keys\<close> lists the keys that are array indices (canonical decimal
  numerals below \<open>2^32 - 1\<close>) first, in ascending numeric order, and then the other keys in
  creation order.
\<close>

type_synonym 'v js_object = "(string \<times> 'v) list"

definition js_get :: "'v js_object \<Rightarrow> string \<Rightarrow> 'v option" where
  "js_get obj k = map_of obj k"

fun js_set :: "'v js_object \<Rightarrow> string \<Rightarrow> 'v \<Rightarrow> 'v js_object" where
  "js_set [] k v = [(k, v)]"
| "js_set ((k', v') # obj) k v =
     (if k' = k then (k, v) # obj else (k', v') # js_set obj k v)"

definition is_digit :: "char \<Rightarrow> bool" where
  "is_digit c = (48 \<le> (of_char c :: nat) \<and> (of_char c :: nat) \<le> 57)"

fun digits_value :: "nat \<Rightarrow> string \<Rightarrow> nat" where
  "digits_value acc [] = acc"
| "digits_value acc (c # cs) = digits_value (acc * 10 + (of_char c - 48)) cs"

definition is_array_index :: "string \<Rightarrow> bool" where
  "is_array_index k =
     (case k of
        [] \<Rightarrow> False
      | c # cs \<Rightarrow> list_all is_digit k \<and> (c \<noteq> CHR ''0'' \<or> cs = [])
                 \<and> digits_value 0 k < 4294967295)"

definition own_key_order :: "string list \<Rightarrow> string list" where
  "own_key_order ks =
     sort_key (digits_value 0) (filter is_array_index ks)
     @ filter (\<lambda>k. \<not> is_array_index k) ks"

definition js_keys :: "'v js_object \<Rightarrow> string list" where
  "js_keys obj = own_key_order (map fst obj)"

subsection \<open>Members inherited from \<^verbatim>\<open>Object.prototype\<close>\<close>

text \<open>
  The matrix and its rows are object literals, so a read \<^verbatim>\<open>obj[id]\<close> of a key that is
  not an own property finds the member of that name inherited from
  \<^verbatim>\<open>Object.prototype\<close>, if there is one: \<^verbatim>\<open>partsMatrix['constructor']\<close> is the function
  \<^verbatim>\<open>Object\<close>. The tests \<^verbatim>\<open>!partsMatrix[torId]\<close> and \<^verbatim>\<open>!partsMatrix[torId][categoryId]\<close>
  then find a value, no row or cell is created, and the assignments that follow work on
  the built-in object: the run of \<^verbatim>\<open>createPartsMatrix\<close> escapes from the component's own
  objects. An escape is made through a repair-type id (the built-in object stands in
  for the row, and the category id is the key used on it) or through a category id (the
  built-in object stands in for the cell of an existing row).

  The names that \<^verbatim>\<open>Object.prototype\<close> has in the language standard are
  \<open>object_prototype_names\<close>; each holds a function or, for \<^verbatim>\<open>__proto__\<close>, gives
  \<^verbatim>\<open>Object.prototype\<close> itself, so a test finds a value under each of them. What else the
  built-in objects hold is not in the source, so it is a parameter \<open>builtins\<close>: given the
  escapes made so far, which further names a read of an object literal finds inherited
  with a value that counts as true, and how an escape ends. An escape
  either completes (the two lists are assigned on the built-in object, and the parts of
  the excluded list are marked in between), or raises a \<^verbatim>\<open>TypeError\<close> before the parts
  are marked (the read or an assignment up to \<^verbatim>\<open>.included = ...\<close> fails, as on a string
  or a read-only property in strict code), or raises it after (the assignment of
  \<^verbatim>\<open>.excluded\<close> fails). The escapes made are recorded in the state, since they can change
  the built-in objects.

  An assignment \<^verbatim>\<open>obj[id] = v\<close> to an object literal creates or overwrites an own
  property, except for the key \<^verbatim>\<open>__proto__\<close>, whose inherited setter replaces the
  prototype of \<open>obj\<close> and creates no own property; this is how \<open>table_set\<close> writes to the
  two lookup tables. The matrix and its rows are assigned to only under a key that the
  test before has found neither own nor inherited, and the first cell of a row is a
  computed key of an object literal, which is always an own property.
\<close>

datatype escape = ViaRepairType string string | ViaCategory string

datatype escape_result = Completes | RaisesBeforeMarking | RaisesAfterMarking

record builtins =
  inheritedName :: "escape list \<Rightarrow> string \<Rightarrow> bool"
  escapeResult :: "escape list \<Rightarrow> escape \<Rightarrow> escape_result"

definition object_prototype_names :: "string list" where
  "object_prototype_names =
     [''constructor'', ''__proto__'', ''hasOwnProperty'', ''isPrototypeOf'',
      ''propertyIsEnumerable'', ''toLocaleString'', ''toString'', ''valueOf'',
      ''__defineGetter__'', ''__defineSetter__'', ''__lookupGetter__'', ''__lookupSetter__'']"

definition inherited :: "builtins \<Rightarrow> escape list \<Rightarrow> string \<Rightarrow> bool" where
  "inherited env h k = (k \<in> set object_prototype_names \<or> inheritedName env h k)"

definition table_set :: "(string \<rightharpoonup> 'v) \<Rightarrow> string \<Rightarrow> 'v \<Rightarrow> (string \<rightharpoonup> 'v)" where
  "table_set t k v = (if k = ''__proto__'' then t else t(k \<mapsto> v))"

subsection \<open>The component\<close>

type_synonym matrix = "cell js_object js_object"

record state =
  uKeyPrefix :: string
  categories :: "category list option"
  partsPrices :: "categorized_part list"
  torColumns :: "string list option"
  partsMatrix :: "matrix option"
  selectedParts :: "string \<rightharpoonup> categorized_part"
  checkedParts :: "string \<rightharpoonup> categorized_part"
  categoriesById :: "string \<rightharpoonup> string \<times> string"
  torsById :: "string \<rightharpoonup> string \<times> string"
  heap :: "addr \<Rightarrow> part"
  escapes :: "escape list"

datatype error = TypeError

text \<open>
  A method that can raise after it has written to the component returns an outcome: the
  state at its return, or the error and the state at the moment the error is raised.
  \<open>forEach\<close> is \<^verbatim>\<open>Array.prototype.forEach\<close> with a callback that can raise: the error
  ends the loop.
\<close>

datatype 'a outcome = Returns 'a | Raises error 'a

fun final :: "'a outcome \<Rightarrow> 'a" where
  "final (Returns x) = x"
| "final (Raises e x) = x"

fun raised :: "'a outcome \<Rightarrow> error option" where
  "raised (Returns x) = None"
| "raised (Raises e x) = Some e"

fun forEach :: "('a \<Rightarrow> 'b \<Rightarrow> 'b outcome) \<Rightarrow> 'a list \<Rightarrow> 'b \<Rightarrow> 'b outcome" where
  "forEach f [] x = Returns x"
| "forEach f (y # ys) x =
     (case f y x of Returns x' \<Rightarrow> forEach f ys x' | Raises e x' \<Rightarrow> Raises e x')"

section \<open>Operations\<close>

text \<open>
  \<^verbatim>\<open>getUKey\<close>: the template string
  \<^verbatim>\<open>`${this.uKeyPrefix}_${categoryId}_${torId}_${part.partNumber}_${part.sOS}`\<close>.
  It reads two fields of the part, and is applied to parts and to categorized parts.
\<close>

definition getUKey :: "string \<Rightarrow> string \<Rightarrow> string \<Rightarrow> 'a part_scheme \<Rightarrow> string" where
  "getUKey prefix cid tid p =
     prefix @ ''_'' @ cid @ ''_'' @ tid @ ''_'' @ partNumber p @ ''_'' @ sOS p"

definition isSelected :: "state \<Rightarrow> category \<Rightarrow> string \<Rightarrow> addr \<Rightarrow> bool" where
  "isSelected s c tid a =
     (selectedParts s (getUKey (uKeyPrefix s) (categoryId c) tid (heap s a)) \<noteq> None)"

definition isChecked :: "state \<Rightarrow> category \<Rightarrow> string \<Rightarrow> addr \<Rightarrow> bool" where
  "isChecked s c tid a =
     (checkedParts s (getUKey (uKeyPrefix s) (categoryId c) tid (heap s a)) \<noteq> None)"

definition getCheckedPart :: "state \<Rightarrow> category \<Rightarrow> string \<Rightarrow> addr \<Rightarrow> categorized_part option" where
  "getCheckedPart s c tid a =
     checkedParts s (getUKey (uKeyPrefix s) (categoryId c) tid (heap s a))"

definition clearChecked :: "state \<Rightarrow> state" where
  "clearChecked s = s\<lparr>checkedParts := Map.empty\<rparr>"

definition clearSelections :: "state \<Rightarrow> state" where
  "clearSelections s = clearChecked (s\<lparr>selectedParts := Map.empty\<rparr>)"

text \<open>
  \<^verbatim>\<open>qtyChanged\<close>: \<^verbatim>\<open>this.selectedParts.forEach(val => val.qty = qty)\<close> writes to every
  entry of the map. The entries are objects created by \<^verbatim>\<open>updateSelectedParts\<close> with an
  object spread and referenced from the map only, so the write is a change of the map's
  values.
\<close>

definition qtyChanged :: "state \<Rightarrow> int \<Rightarrow> state" where
  "qtyChanged s q =
     (let s1 = clearChecked s
      in s1\<lparr>selectedParts :=
               (\<lambda>k. map_option (\<lambda>val. val\<lparr>qty := Some q\<rparr>) (selectedParts s1 k))\<rparr>)"

text \<open>
  \<^verbatim>\<open>isAllPartsInCategorySelected\<close>. \<^verbatim>\<open>category.repairTypes.map\<close> is called without a
  test, so a category without a repair-type list raises a \<^verbatim>\<open>TypeError\<close>.
\<close>

definition isAllPartsInTORSelected :: "state \<Rightarrow> category \<Rightarrow> tor \<Rightarrow> bool" where
  "isAllPartsInTORSelected s c t =
     list_all (\<lambda>p. selectedParts s (getUKey (uKeyPrefix s) (categoryId c) (torId t) (heap s p)) \<noteq> None)
       (partsIncluded t @ partsExcluded t)"

definition isAllPartsInCategorySelected :: "state \<Rightarrow> category \<Rightarrow> error + bool" where
  "isAllPartsInCategorySelected s c =
     (case repairTypes c of
        None \<Rightarrow> Inl TypeError
      | Some tors \<Rightarrow> Inr (list_all (\<lambda>b. b) (map (isAllPartsInTORSelected s c) tors)))"

text \<open>
  \<^verbatim>\<open>updateSelectedParts\<close>. The entry \<^verbatim>\<open>{categoryId, torId, ...p}\<close> is a new object with the
  two ids and the fields of \<open>p\<close> as they are after \<^verbatim>\<open>p.qty\<close> has been assigned. The test
  \<^verbatim>\<open>selectedPreviouslyPart ? ... : 1\<close> is on the entry, not on its quantity. The body of
  \<^verbatim>\<open>forEach\<close> is \<open>updateSelectedPart\<close>.
\<close>

definition categorize :: "string \<Rightarrow> string \<Rightarrow> part \<Rightarrow> categorized_part" where
  "categorize cid tid p =
     \<lparr>partNumber = partNumber p, sOS = sOS p, isExcluded = isExcluded p, qty = qty p,
      cpCategoryId = cid, cpTorId = tid\<rparr>"

definition updateSelectedPart :: "string \<Rightarrow> string \<Rightarrow> bool \<Rightarrow> addr \<Rightarrow> state \<Rightarrow> state" where
  "updateSelectedPart cid tid checked p s =
     (let uKey = getUKey (uKeyPrefix s) cid tid (heap s p);
          selectedPreviouslyPart = selectedParts s uKey
      in if checked then
           (let p' = (heap s p)\<lparr>qty := (case selectedPreviouslyPart of
                                          Some e \<Rightarrow> qty e
                                        | None \<Rightarrow> Some 1)\<rparr>
            in s\<lparr>heap := (heap s)(p := p'),
                 selectedParts := (selectedParts s)(uKey \<mapsto> categorize cid tid p')\<rparr>)
         else s\<lparr>selectedParts := (selectedParts s)(uKey := None)\<rparr>)"

definition updateSelectedParts :: "state \<Rightarrow> addr list \<Rightarrow> string \<Rightarrow> string \<Rightarrow> bool \<Rightarrow> state" where
  "updateSelectedParts s parts cid tid checked =
     fold (updateSelectedPart cid tid checked) parts s"

text \<open>
  \<^verbatim>\<open>changeSelectionOnPartsInCategory\<close>, with \<^verbatim>\<open>this.categorySelection\<close> as arguments.
\<close>

definition changeSelectionOnPartsInCategory :: "state \<Rightarrow> bool \<Rightarrow> category \<Rightarrow> error + state" where
  "changeSelectionOnPartsInCategory s checked c =
     (case repairTypes c of
        None \<Rightarrow> Inl TypeError
      | Some tors \<Rightarrow>
          Inr (fold (\<lambda>t s'. updateSelectedParts s' (partsIncluded t @ partsExcluded t)
                              (categoryId c) (torId t) checked) tors s))"

text \<open>
  \<^verbatim>\<open>createPartsMatrix\<close>. \<open>mark_excluded\<close> is the callback of \<^verbatim>\<open>partsExcluded.map\<close>, which
  writes the flag on each part and returns the same references.

  The body of the inner loop (lines 205 to 221) first writes the entry of the repair type
  in \<^verbatim>\<open>torsById\<close>. Then:
  \<^item> when \<^verbatim>\<open>partsMatrix[torId]\<close> is an own row and \<^verbatim>\<open>partsMatrix[torId][categoryId]\<close> an own
    cell, the two fields of the cell are overwritten;
  \<^item> when the row is own and the category id is neither an own key of it nor an inherited
    name, the cell is created at the end of the row and its two fields are assigned;
  \<^item> when the repair-type id is neither an own key of the matrix nor an inherited name,
    the row is created at the end of the matrix with the cell as its only property;
  \<^item> otherwise the run escapes, through the repair-type id or through the category id.

  The first three cases are \<open>putCell\<close>: a row that exists keeps its place and its other
  cells, and a cell that exists keeps its place. The parts of the excluded list are
  marked after \<^verbatim>\<open>.included\<close> has been assigned and before \<^verbatim>\<open>.excluded\<close> is.
\<close>

fun mark_excluded :: "(addr \<Rightarrow> part) \<Rightarrow> addr list \<Rightarrow> (addr \<Rightarrow> part)" where
  "mark_excluded h [] = h"
| "mark_excluded h (p # ps) = mark_excluded (h(p := (h p)\<lparr>isExcluded := Some True\<rparr>)) ps"

definition rowOf :: "matrix \<Rightarrow> string \<Rightarrow> cell js_object" where
  "rowOf m tid = (case js_get m tid of None \<Rightarrow> [] | Some r \<Rightarrow> r)"

definition cellOf :: "tor \<Rightarrow> cell" where
  "cellOf rt = \<lparr>included = partsIncluded rt, excluded = partsExcluded rt\<rparr>"

definition putCell :: "string \<times> tor \<Rightarrow> matrix \<Rightarrow> matrix" where
  "putCell p m = js_set m (torId (snd p)) (js_set (rowOf m (torId (snd p))) (fst p) (cellOf (snd p)))"

definition escapeAt ::
  "builtins \<Rightarrow> escape \<Rightarrow> addr list \<Rightarrow> matrix \<times> state \<Rightarrow> (matrix \<times> state) outcome" where
  "escapeAt env e excl ms =
     (case ms of (m, s) \<Rightarrow>
        (let s' = s\<lparr>escapes := escapes s @ [e]\<rparr>
         in case escapeResult env (escapes s) e of
              Completes \<Rightarrow> Returns (m, s'\<lparr>heap := mark_excluded (heap s) excl\<rparr>)
            | RaisesBeforeMarking \<Rightarrow> Raises TypeError (m, s')
            | RaisesAfterMarking \<Rightarrow> Raises TypeError (m, s'\<lparr>heap := mark_excluded (heap s) excl\<rparr>)))"

definition repairType_step ::
  "builtins \<Rightarrow> string \<Rightarrow> tor \<Rightarrow> matrix \<times> state \<Rightarrow> (matrix \<times> state) outcome" where
  "repairType_step env cid rt ms =
     (case ms of (m, s) \<Rightarrow>
        (let s1 = s\<lparr>torsById := table_set (torsById s) (torId rt) (torId rt, torTitle rt)\<rparr>;
             own = Returns (putCell (cid, rt) m,
                            s1\<lparr>heap := mark_excluded (heap s1) (partsExcluded rt)\<rparr>)
         in case js_get m (torId rt) of
              None \<Rightarrow>
                if inherited env (escapes s1) (torId rt)
                then escapeAt env (ViaRepairType (torId rt) cid) (partsExcluded rt) (m, s1)
                else own
            | Some row \<Rightarrow>
                (case js_get row cid of
                   Some c \<Rightarrow> own
                 | None \<Rightarrow>
                     if inherited env (escapes s1) cid
                     then escapeAt env (ViaCategory cid) (partsExcluded rt) (m, s1)
                     else own)))"

definition category_step ::
  "builtins \<Rightarrow> category \<Rightarrow> matrix \<times> state \<Rightarrow> (matrix \<times> state) outcome" where
  "category_step env c ms =
     (case repairTypes c of
        None \<Rightarrow> Returns ms
      | Some tors \<Rightarrow>
          (case ms of (m, s) \<Rightarrow>
             forEach (repairType_step env (categoryId c)) tors
               (m, s\<lparr>categoriesById :=
                       table_set (categoriesById s) (categoryId c) (categoryId c, title c)\<rparr>)))"

text \<open>
  The column order: \<^verbatim>\<open>Object.keys(partsMatrix)\<close> paired with the number of keys of each
  row, sorted with the comparator \<^verbatim>\<open>b.count - a.count\<close>. \<^verbatim>\<open>Array.prototype.sort\<close> is
  stable (ECMAScript 2019), as is \<open>sort_key\<close>.
\<close>

definition row_count :: "matrix \<Rightarrow> string \<Rightarrow> nat" where
  "row_count m key = length (js_keys (case js_get m key of None \<Rightarrow> [] | Some r \<Rightarrow> r))"

definition column_order :: "matrix \<Rightarrow> string list" where
  "column_order m =
     map fst (sort_key (\<lambda>item. - int (snd item))
                (map (\<lambda>key. (key, row_count m key)) (js_keys m)))"

text \<open>
  When an error ends the loops, \<^verbatim>\<open>this.partsMatrix\<close> and \<^verbatim>\<open>this.torColumns\<close> are not
  assigned.
\<close>

definition createPartsMatrix :: "builtins \<Rightarrow> state \<Rightarrow> state outcome" where
  "createPartsMatrix env s =
     (case categories s of
        None \<Rightarrow> Returns (s\<lparr>torColumns := Some []\<rparr>)
      | Some cats \<Rightarrow>
          (case forEach (category_step env) cats ([], s) of
             Returns (m, s') \<Rightarrow>
               Returns (s'\<lparr>partsMatrix := Some m, torColumns := Some (column_order m)\<rparr>)
           | Raises e (m, s') \<Rightarrow> Raises e s'))"

text \<open>
  \<^verbatim>\<open>updatePricesInfo\<close>: a new map, filled from \<^verbatim>\<open>this.partsPrices\<close>.
\<close>

definition updatePricesInfo :: "state \<Rightarrow> state" where
  "updatePricesInfo s =
     s\<lparr>checkedParts :=
         fold (\<lambda>p m. m(getUKey (uKeyPrefix s) (cpCategoryId p) (cpTorId p) p \<mapsto> p))
           (partsPrices s) Map.empty\<rparr>"


section \<open>Vocabulary of the statements\<close>

text \<open>
  The key of the part at a reference, and the quantity that \<^verbatim>\<open>updateSelectedParts\<close>
  gives to a part with a given key: the quantity of the entry under that key, or 1.
\<close>

definition partKey :: "state \<Rightarrow> string \<Rightarrow> string \<Rightarrow> addr \<Rightarrow> string" where
  "partKey s cid tid a = getUKey (uKeyPrefix s) cid tid (heap s a)"

definition keptQty :: "state \<Rightarrow> string \<Rightarrow> int option" where
  "keptQty s k = (case selectedParts s k of Some e \<Rightarrow> qty e | None \<Rightarrow> Some 1)"

text \<open>
  Among the input parts of \<^verbatim>\<open>updateSelectedParts\<close>, the last one with a given key: the
  entry under the key is written once for each of them, and the last write stays.
\<close>

definition lastWithKey :: "state \<Rightarrow> string \<Rightarrow> string \<Rightarrow> addr list \<Rightarrow> string \<Rightarrow> addr" where
  "lastWithKey s cid tid parts k = last (filter (\<lambda>b. partKey s cid tid b = k) parts)"

definition selectedEntry :: "state \<Rightarrow> string \<Rightarrow> string \<Rightarrow> addr list \<Rightarrow> string \<Rightarrow> categorized_part" where
  "selectedEntry s cid tid parts k =
     categorize cid tid ((heap s (lastWithKey s cid tid parts k))\<lparr>qty := keptQty s k\<rparr>)"

definition pricedKey :: "state \<Rightarrow> categorized_part \<Rightarrow> string" where
  "pricedKey s p = getUKey (uKeyPrefix s) (cpCategoryId p) (cpTorId p) p"

text \<open>
  The pairs of a category id and a repair type that the two loops of
  \<^verbatim>\<open>createPartsMatrix\<close> visit, in the order of the visit: a category without a list of
  repair types contributes none.
\<close>

definition catalogPairs :: "category list \<Rightarrow> (string \<times> tor) list" where
  "catalogPairs cats =
     concat (map (\<lambda>c. case repairTypes c of
                         None \<Rightarrow> []
                       | Some tors \<Rightarrow> map (\<lambda>t. (categoryId c, t)) tors) cats)"

text \<open>
  The ids of a list without repetition, each at the place of its first occurrence; the
  last visited pair with a given category id and repair-type id; and the number of
  distinct category ids visited together with a given repair-type id.
\<close>

definition firstSeen :: "'a list \<Rightarrow> 'a list" where
  "firstSeen xs = rev (remdups (rev xs))"

definition lastPair :: "(string \<times> tor) list \<Rightarrow> string \<Rightarrow> string \<Rightarrow> (string \<times> tor) option" where
  "lastPair pairs cid tid = find (\<lambda>p. fst p = cid \<and> torId (snd p) = tid) (rev pairs)"

definition categoriesOf :: "(string \<times> tor) list \<Rightarrow> string \<Rightarrow> string list" where
  "categoriesOf pairs tid = map fst (filter (\<lambda>p. torId (snd p) = tid) pairs)"

definition categoryCount :: "category list \<Rightarrow> string \<Rightarrow> nat" where
  "categoryCount cats tid = length (remdups (categoriesOf (catalogPairs cats) tid))"

text \<open>The cell of a repair-type id and a category id in a matrix.\<close>

definition cellAt :: "matrix \<Rightarrow> string \<Rightarrow> string \<Rightarrow> cell option" where
  "cellAt m tid cid = js_get (rowOf m tid) cid"

text \<open>The matrix that writing the cells of a list of pairs builds.\<close>

definition builtMatrix :: "(string \<times> tor) list \<Rightarrow> matrix" where
  "builtMatrix pairs = fold putCell pairs []"

text \<open>The parts that the excluded lists of a list of pairs refer to.\<close>

definition excludedOf :: "(string \<times> tor) list \<Rightarrow> addr list" where
  "excludedOf pairs = concat (map (\<lambda>p. partsExcluded (snd p)) pairs)"

text \<open>The repair-type ids of a list of categories, in the order of their first visit.\<close>

definition torIdsSeen :: "category list \<Rightarrow> string list" where
  "torIdsSeen cats = firstSeen (map (\<lambda>p. torId (snd p)) (catalogPairs cats))"

text \<open>
  No category id and no repair-type id that the loops visit is a name inherited from
  \<^verbatim>\<open>Object.prototype\<close>, in the condition of the built-in objects that the state records.
\<close>

definition safeIds :: "builtins \<Rightarrow> state \<Rightarrow> category list \<Rightarrow> bool" where
  "safeIds env s cats =
     list_all (\<lambda>p. \<not> inherited env (escapes s) (fst p)
                  \<and> \<not> inherited env (escapes s) (torId (snd p)))
       (catalogPairs cats)"

text \<open>
  What holds of the matrix and of the store while the loops run, when the pairs in
  \<open>seen\<close> have been visited from a store \<open>h0\<close>: keys are not repeated, every cell is the
  cell of the last visited pair with its two ids, a part differs from what it was at
  most by the flag set on a part of a visited excluded list, and the parts of the
  excluded list of every cell carry the flag.
\<close>

definition builderInv :: "(addr \<Rightarrow> part) \<Rightarrow> (string \<times> tor) list \<Rightarrow> matrix \<times> state \<Rightarrow> bool" where
  "builderInv h0 seen ms =
     (case ms of (m, s) \<Rightarrow>
        distinct (map fst m)
        \<and> (\<forall>tid. distinct (map fst (rowOf m tid)))
        \<and> (\<forall>tid cid c. cellAt m tid cid = Some c \<longrightarrow>
              (\<exists>p. lastPair seen cid tid = Some p \<and> c = cellOf (snd p))
              \<and> (\<forall>a \<in> set (excluded c). isExcluded (heap s a) = Some True))
        \<and> (\<forall>a. heap s a = h0 a
                \<or> (a \<in> set (excludedOf seen) \<and> heap s a = (h0 a)\<lparr>isExcluded := Some True\<rparr>)))"

text \<open>\<open>a\<close> stands in a list, and \<open>b\<close> stands somewhere after the first \<open>a\<close>.\<close>

definition placedBefore :: "'a \<Rightarrow> 'a \<Rightarrow> 'a list \<Rightarrow> bool" where
  "placedBefore a b xs = (b \<in> set (drop 1 (dropWhile (\<lambda>x. x \<noteq> a) xs)))"

section \<open>A small catalog\<close>

text \<open>
  \<open>ex_state\<close> is the component as it is constructed, with the key prefix \<open>pre\<close>: no
  matrix and no column order yet, empty registries and tables. Its store holds three parts.
  Category \<open>C1\<close> has repair type \<open>T1\<close> with the included part \<open>P1/A\<close> (reference 10) and
  the excluded part \<open>P2/B\<close> (reference 11), whose flag is negated in the input. Reference
  12 is a second record of \<open>P1/A\<close> that carries the exclusion flag.
\<close>

definition ex_heap :: "addr \<Rightarrow> part" where
  "ex_heap a =
     (if a = 10 then \<lparr>partNumber = ''P1'', sOS = ''A'', isExcluded = None, qty = None\<rparr>
      else if a = 11 then \<lparr>partNumber = ''P2'', sOS = ''B'', isExcluded = Some False, qty = None\<rparr>
      else \<lparr>partNumber = ''P1'', sOS = ''A'', isExcluded = Some True, qty = None\<rparr>)"

definition ex_state :: state where
  "ex_state =
     \<lparr>uKeyPrefix = ''pre'', categories = Some [], partsPrices = [], torColumns = None,
      partsMatrix = None, selectedParts = Map.empty, checkedParts = Map.empty,
      categoriesById = Map.empty, torsById = Map.empty, heap = ex_heap, escapes = []\<rparr>"

definition ex_tor :: tor where
  "ex_tor = \<lparr>torId = ''T1'', torTitle = ''Repair 1'', partsIncluded = [10], partsExcluded = [11]\<rparr>"

definition ex_category :: category where
  "ex_category = \<lparr>categoryId = ''C1'', title = ''Category 1'', repairTypes = Some [ex_tor]\<rparr>"

definition ex_priced :: categorized_part where
  "ex_priced = categorize ''C1'' ''T1'' ((ex_heap 10)\<lparr>qty := Some 3\<rparr>)"

definition ex_priced2 :: categorized_part where
  "ex_priced2 = categorize ''C1'' ''T1'' ((ex_heap 11)\<lparr>qty := Some 1\<rparr>)"

definition ex_repriced :: categorized_part where
  "ex_repriced = ex_priced\<lparr>qty := Some 7\<rparr>"

definition ex_selected :: state where
  "ex_selected =
     ex_state\<lparr>selectedParts := [''pre_C1_T1_P1_A'' \<mapsto> ex_priced],
              checkedParts := [''pre_C1_T1_P1_A'' \<mapsto> ex_priced]\<rparr>"

text \<open>
  The component with the small catalog as input, and after the matrix has been built
  from it.
\<close>

definition ex_input :: state where
  "ex_input = ex_state\<lparr>categories := Some [ex_category]\<rparr>"

text \<open>
  Built-in objects that answer as the standard ones do where the examples ask them: no
  name is inherited beyond those of the standard; on the function \<^verbatim>\<open>Object\<close>, found under
  \<open>constructor\<close>, the key \<open>name\<close> holds a string, so that assigning \<^verbatim>\<open>.included\<close> on it
  raises, and the key \<open>C1\<close> holds nothing, so that a cell is created on \<^verbatim>\<open>Object\<close> itself.
\<close>

definition ex_builtins :: builtins where
  "ex_builtins =
     \<lparr>inheritedName = (\<lambda>h k. False),
      escapeResult = (\<lambda>h e. if e = ViaRepairType ''constructor'' ''name''
                             then RaisesBeforeMarking else Completes)\<rparr>"

definition ex_built :: state where
  "ex_built = final (createPartsMatrix ex_builtins ex_input)"

text \<open>
  Two catalogs with the repair-type id \<open>constructor\<close>: in the first its category is
  \<open>C1\<close> and the repair type \<open>T1\<close> follows; in the second its category is \<open>name\<close>.
\<close>

definition ex_catalog_constructor :: "category list" where
  "ex_catalog_constructor =
     [\<lparr>categoryId = ''C1'', title = ''Category 1'',
       repairTypes = Some [ex_tor\<lparr>torId := ''constructor''\<rparr>, ex_tor]\<rparr>]"

definition ex_catalog_name :: "category list" where
  "ex_catalog_name =
     [\<lparr>categoryId = ''name'', title = ''Category'',
       repairTypes = Some [ex_tor\<lparr>torId := ''constructor''\<rparr>]\<rparr>]"

text \<open>
  Two further catalogs. In the first, repair type \<open>TB\<close> is visited before \<open>TA\<close>, and
  \<open>TA\<close> is in three categories, \<open>TB\<close> in one. In the second, one category has the
  repair types \<open>2\<close> and \<open>1\<close>, in this order.
\<close>

definition ex_tor_named :: "string \<Rightarrow> tor" where
  "ex_tor_named tid = \<lparr>torId = tid, torTitle = tid, partsIncluded = [], partsExcluded = []\<rparr>"

definition ex_catalog3 :: "category list" where
  "ex_catalog3 =
     [\<lparr>categoryId = ''C1'', title = ''Category 1'',
       repairTypes = Some [ex_tor_named ''TB'', ex_tor_named ''TA'']\<rparr>,
      \<lparr>categoryId = ''C2'', title = ''Category 2'', repairTypes = Some [ex_tor_named ''TA'']\<rparr>,
      \<lparr>categoryId = ''C3'', title = ''Category 3'', repairTypes = Some [ex_tor_named ''TA'']\<rparr>]"

definition ex_catalog_numeric :: "category list" where
  "ex_catalog_numeric =
     [\<lparr>categoryId = ''C1'', title = ''Category 1'',
       repairTypes = Some [ex_tor_named ''2'', ex_tor_named ''1'']\<rparr>]"

section \<open>The registries\<close>

subsection \<open>Quantity change\<close>

lemma qtyChanged_selected:
  "selectedParts (qtyChanged s q) k = map_option (\<lambda>val. val\<lparr>qty := Some q\<rparr>) (selectedParts s k)"
  by (simp add: qtyChanged_def clearChecked_def Let_def)

lemma qtyChanged_checked: "checkedParts (qtyChanged s q) = Map.empty"
  by (simp add: qtyChanged_def clearChecked_def Let_def)

text \<open>
  C4. After \<^verbatim>\<open>qtyChanged(q)\<close> the checked registry is empty whatever it held, every entry
  of the selected registry has quantity \<open>q\<close>, and the selected registry has the keys it
  had before.
\<close>

theorem qtyChanged_clears_and_sets:
  "checkedParts (qtyChanged s q) = Map.empty
   \<and> (\<forall>k e. selectedParts (qtyChanged s q) k = Some e \<longrightarrow> qty e = Some q)
   \<and> dom (selectedParts (qtyChanged s q)) = dom (selectedParts s)"
proof (intro conjI allI impI)
  show "checkedParts (qtyChanged s q) = Map.empty"
    by (rule qtyChanged_checked)
next
  fix k e
  assume "selectedParts (qtyChanged s q) k = Some e"
  then show "qty e = Some q"
    by (auto simp: qtyChanged_selected)
next
  show "dom (selectedParts (qtyChanged s q)) = dom (selectedParts s)"
    by (auto simp: qtyChanged_selected dom_def)
qed

theorem qtyChanged_clears_and_sets_witness:
  "checkedParts ex_selected ''pre_C1_T1_P1_A'' = Some ex_priced
   \<and> selectedParts (qtyChanged ex_selected 5) ''pre_C1_T1_P1_A'' = Some (ex_priced\<lparr>qty := Some 5\<rparr>)
   \<and> qty (ex_priced\<lparr>qty := Some 5\<rparr>) = Some 5
   \<and> checkedParts (qtyChanged ex_selected 5) = Map.empty
   \<and> dom (selectedParts (qtyChanged ex_selected 5)) = {''pre_C1_T1_P1_A''}"
proof -
  have e: "selectedParts (qtyChanged ex_selected 5) ''pre_C1_T1_P1_A'' = Some (ex_priced\<lparr>qty := Some 5\<rparr>)"
    by (simp add: qtyChanged_selected ex_selected_def)
  have d: "dom (selectedParts ex_selected) = {''pre_C1_T1_P1_A''}"
    by (simp add: ex_selected_def)
  have c: "checkedParts ex_selected ''pre_C1_T1_P1_A'' = Some ex_priced"
    by (simp add: ex_selected_def)
  from qtyChanged_clears_and_sets [of ex_selected 5] e d c show ?thesis
    by simp
qed

subsection \<open>Price overlay\<close>

lemma dom_fold_upd:
  "dom (fold (\<lambda>p m. m(f p \<mapsto> p)) ps m0) = dom m0 \<union> f ` set ps"
  by (induction ps arbitrary: m0) auto

lemma fold_upd_Some:
  "fold (\<lambda>p m. m(f p \<mapsto> p)) ps m0 k = Some q \<Longrightarrow> (q \<in> set ps \<and> f q = k) \<or> m0 k = Some q"
proof (induction ps arbitrary: m0)
  case Nil
  then show ?case by simp
next
  case (Cons a ps)
  from Cons.prems have "fold (\<lambda>p m. m(f p \<mapsto> p)) ps (m0(f a \<mapsto> a)) k = Some q"
    by (simp only: fold_simps comp_apply)
  from Cons.IH [OF this] show ?case
    by (auto split: if_splits)
qed

lemma fold_upd_last:
  "fold (\<lambda>p m. m(f p \<mapsto> p)) ps m0 k
   = (if filter (\<lambda>p. f p = k) ps = [] then m0 k else Some (last (filter (\<lambda>p. f p = k) ps)))"
proof (induction ps arbitrary: m0)
  case Nil
  show ?case by simp
next
  case (Cons a ps)
  have "fold (\<lambda>p m. m(f p \<mapsto> p)) (a # ps) m0 k = fold (\<lambda>p m. m(f p \<mapsto> p)) ps (m0(f a \<mapsto> a)) k"
    by (simp only: fold_simps comp_apply)
  also have "\<dots> = (if filter (\<lambda>p. f p = k) ps = [] then (m0(f a \<mapsto> a)) k
                   else Some (last (filter (\<lambda>p. f p = k) ps)))"
    by (rule Cons.IH)
  also have "\<dots> = (if filter (\<lambda>p. f p = k) (a # ps) = [] then m0 k
                   else Some (last (filter (\<lambda>p. f p = k) (a # ps))))"
    by simp
  finally show ?case .
qed

lemma updatePricesInfo_checked:
  "checkedParts (updatePricesInfo s)
   = fold (\<lambda>p m. m(pricedKey s p \<mapsto> p)) (partsPrices s) Map.empty"
  by (simp add: updatePricesInfo_def pricedKey_def)

text \<open>
  C3. After \<^verbatim>\<open>updatePricesInfo\<close> on a list \<open>P\<close> of priced parts, the keys of the checked
  registry are exactly the keys of the elements of \<open>P\<close>, every entry is an element of \<open>P\<close>
  under its own key (the last one of \<open>P\<close> with that key), the registry is the same
  whatever it held before the call, and the selected registry is as it was.
\<close>

theorem updatePricesInfo_replaces:
  "dom (checkedParts (updatePricesInfo (s\<lparr>partsPrices := P\<rparr>))) = pricedKey s ` set P
   \<and> (\<forall>k p. checkedParts (updatePricesInfo (s\<lparr>partsPrices := P\<rparr>)) k = Some p
          \<longrightarrow> p \<in> set P \<and> pricedKey s p = k)
   \<and> (\<forall>k. checkedParts (updatePricesInfo (s\<lparr>partsPrices := P\<rparr>)) k
          = (if filter (\<lambda>p. pricedKey s p = k) P = [] then None
             else Some (last (filter (\<lambda>p. pricedKey s p = k) P))))
   \<and> (\<forall>old. checkedParts (updatePricesInfo (s\<lparr>checkedParts := old, partsPrices := P\<rparr>))
            = checkedParts (updatePricesInfo (s\<lparr>partsPrices := P\<rparr>)))
   \<and> selectedParts (updatePricesInfo (s\<lparr>partsPrices := P\<rparr>)) = selectedParts s"
proof -
  have lasts: "checkedParts (updatePricesInfo (s\<lparr>partsPrices := P\<rparr>)) k
          = (if filter (\<lambda>p. pricedKey s p = k) P = [] then None
             else Some (last (filter (\<lambda>p. pricedKey s p = k) P)))" for k
    by (simp add: updatePricesInfo_checked pricedKey_def fold_upd_last)
  have keys: "dom (checkedParts (updatePricesInfo (s\<lparr>partsPrices := P\<rparr>))) = pricedKey s ` set P"
    by (simp add: updatePricesInfo_checked dom_fold_upd pricedKey_def)
  have entries: "p \<in> set P \<and> pricedKey s p = k"
    if "checkedParts (updatePricesInfo (s\<lparr>partsPrices := P\<rparr>)) k = Some p" for k p
  proof -
    from that have "fold (\<lambda>p m. m(pricedKey s p \<mapsto> p)) P Map.empty k = Some p"
      by (simp add: updatePricesInfo_checked pricedKey_def)
    from fold_upd_Some [OF this] show ?thesis
      by simp
  qed
  have fresh: "checkedParts (updatePricesInfo (s\<lparr>checkedParts := old, partsPrices := P\<rparr>))
            = checkedParts (updatePricesInfo (s\<lparr>partsPrices := P\<rparr>))" for old
    by (simp add: updatePricesInfo_checked pricedKey_def)
  have sel: "selectedParts (updatePricesInfo (s\<lparr>partsPrices := P\<rparr>)) = selectedParts s"
    by (simp add: updatePricesInfo_def)
  from entries have e: "\<forall>k p. checkedParts (updatePricesInfo (s\<lparr>partsPrices := P\<rparr>)) k = Some p
          \<longrightarrow> p \<in> set P \<and> pricedKey s p = k"
    by blast
  from lasts have l: "\<forall>k. checkedParts (updatePricesInfo (s\<lparr>partsPrices := P\<rparr>)) k
          = (if filter (\<lambda>p. pricedKey s p = k) P = [] then None
             else Some (last (filter (\<lambda>p. pricedKey s p = k) P)))"
    by (rule allI)
  from fresh have f: "\<forall>old. checkedParts (updatePricesInfo (s\<lparr>checkedParts := old, partsPrices := P\<rparr>))
            = checkedParts (updatePricesInfo (s\<lparr>partsPrices := P\<rparr>))"
    by (rule allI)
  show ?thesis
    by (intro conjI) (rule keys, rule e, rule l, rule f, rule sel)
qed

theorem updatePricesInfo_replaces_witness:
  "checkedParts ex_selected ''pre_C1_T1_P1_A'' = Some ex_priced
   \<and> pricedKey ex_selected ex_repriced = ''pre_C1_T1_P1_A''
   \<and> ex_repriced \<noteq> ex_priced
   \<and> checkedParts (updatePricesInfo (ex_selected\<lparr>partsPrices := [ex_repriced]\<rparr>))
        ''pre_C1_T1_P1_A'' = Some ex_repriced
   \<and> dom (checkedParts (updatePricesInfo (ex_selected\<lparr>partsPrices := [ex_repriced]\<rparr>)))
       = {''pre_C1_T1_P1_A''}
   \<and> selectedParts (updatePricesInfo (ex_selected\<lparr>partsPrices := [ex_repriced]\<rparr>))
       = selectedParts ex_selected"
proof -
  note th = updatePricesInfo_replaces [where s = ex_selected and P = "[ex_repriced]"]
  let ?s' = "updatePricesInfo (ex_selected\<lparr>partsPrices := [ex_repriced]\<rparr>)"
  have k: "pricedKey ex_selected ex_repriced = ''pre_C1_T1_P1_A''"
    by (simp add: pricedKey_def getUKey_def ex_repriced_def ex_priced_def categorize_def
        ex_selected_def ex_state_def ex_heap_def)
  have old: "checkedParts ex_selected ''pre_C1_T1_P1_A'' = Some ex_priced"
    by (simp add: ex_selected_def)
  have ne: "ex_repriced \<noteq> ex_priced"
    by (simp add: ex_repriced_def ex_priced_def categorize_def)
  from th [THEN conjunct1] k have d: "dom (checkedParts ?s') = {''pre_C1_T1_P1_A''}"
    by simp
  then obtain p where p: "checkedParts ?s' ''pre_C1_T1_P1_A'' = Some p"
    by blast
  from th [THEN conjunct2, THEN conjunct1, rule_format, OF p] have "p \<in> set [ex_repriced]"
    by simp
  with p have e: "checkedParts ?s' ''pre_C1_T1_P1_A'' = Some ex_repriced"
    by simp
  have "selectedParts ?s' = selectedParts ex_selected"
    by (rule th [THEN conjunct2, THEN conjunct2, THEN conjunct2, THEN conjunct2])
  with k old ne e d show ?thesis
    by simp
qed

subsection \<open>Deselection\<close>

lemma updateSelectedPart_off:
  "updateSelectedPart cid tid False a s
   = s\<lparr>selectedParts := (selectedParts s)(partKey s cid tid a := None)\<rparr>"
  by (simp add: updateSelectedPart_def partKey_def Let_def)

lemma updateSelectedParts_off:
  "updateSelectedParts s parts cid tid False
   = s\<lparr>selectedParts :=
         (\<lambda>k. if k \<in> partKey s cid tid ` set parts then None else selectedParts s k)\<rparr>"
proof (induction parts arbitrary: s)
  case Nil
  show ?case by (simp add: updateSelectedParts_def)
next
  case (Cons a parts)
  let ?s1 = "s\<lparr>selectedParts := (selectedParts s)(partKey s cid tid a := None)\<rparr>"
  have k: "partKey ?s1 cid tid = partKey s cid tid"
    by (rule ext) (simp add: partKey_def)
  have "updateSelectedParts s (a # parts) cid tid False
        = updateSelectedParts ?s1 parts cid tid False"
    by (simp add: updateSelectedParts_def updateSelectedPart_off)
  also have "\<dots> = ?s1\<lparr>selectedParts :=
         (\<lambda>k. if k \<in> partKey ?s1 cid tid ` set parts then None else selectedParts ?s1 k)\<rparr>"
    by (rule Cons.IH)
  also have "\<dots> = s\<lparr>selectedParts :=
         (\<lambda>k. if k \<in> partKey s cid tid ` set (a # parts) then None else selectedParts s k)\<rparr>"
    unfolding k by (auto intro!: arg_cong [where f = "\<lambda>f. s\<lparr>selectedParts := f\<rparr>"])
  finally show ?case .
qed

text \<open>
  C5. Deselecting the same parts twice gives the state that deselecting them once gives,
  and deselecting parts none of whose keys is in the selected registry changes nothing.
\<close>

theorem deselect_idempotent:
  "updateSelectedParts (updateSelectedParts s parts cid tid False) parts cid tid False
     = updateSelectedParts s parts cid tid False
   \<and> ((\<forall>a \<in> set parts. selectedParts s (partKey s cid tid a) = None)
        \<longrightarrow> updateSelectedParts s parts cid tid False = s)"
proof (intro conjI impI)
  let ?s1 = "updateSelectedParts s parts cid tid False"
  have k: "partKey ?s1 cid tid = partKey s cid tid"
    by (rule ext) (simp add: partKey_def updateSelectedParts_off)
  have "updateSelectedParts ?s1 parts cid tid False
        = ?s1\<lparr>selectedParts :=
             (\<lambda>k. if k \<in> partKey s cid tid ` set parts then None else selectedParts ?s1 k)\<rparr>"
    by (subst updateSelectedParts_off [of ?s1]) (simp only: k)
  also have "\<dots> = ?s1"
    by (subst (3) updateSelectedParts_off, subst (2) updateSelectedParts_off,
        subst updateSelectedParts_off)
       (auto intro!: arg_cong [where f = "\<lambda>f. s\<lparr>selectedParts := f\<rparr>"])
  finally show "updateSelectedParts ?s1 parts cid tid False = ?s1" .
next
  assume absent: "\<forall>a \<in> set parts. selectedParts s (partKey s cid tid a) = None"
  have "(\<lambda>k. if k \<in> partKey s cid tid ` set parts then None else selectedParts s k)
        = selectedParts s"
    using absent by (auto intro!: ext)
  then show "updateSelectedParts s parts cid tid False = s"
    by (simp add: updateSelectedParts_off)
qed

theorem deselect_idempotent_witness:
  "selectedParts ex_selected (partKey ex_selected ''C1'' ''T1'' 10) = Some ex_priced
   \<and> selectedParts (updateSelectedParts ex_selected [10] ''C1'' ''T1'' False)
        (partKey ex_selected ''C1'' ''T1'' 10) = None
   \<and> updateSelectedParts (updateSelectedParts ex_selected [10] ''C1'' ''T1'' False)
        [10] ''C1'' ''T1'' False
      = updateSelectedParts ex_selected [10] ''C1'' ''T1'' False
   \<and> selectedParts ex_state (partKey ex_state ''C1'' ''T1'' 10) = None
   \<and> updateSelectedParts ex_state [10] ''C1'' ''T1'' False = ex_state"
proof -
  have a: "selectedParts ex_state (partKey ex_state ''C1'' ''T1'' 10) = None"
    by (simp add: ex_state_def)
  have b: "selectedParts ex_selected (partKey ex_selected ''C1'' ''T1'' 10) = Some ex_priced"
    by (simp add: ex_selected_def ex_state_def partKey_def getUKey_def ex_heap_def)
  have c: "selectedParts (updateSelectedParts ex_selected [10] ''C1'' ''T1'' False)
        (partKey ex_selected ''C1'' ''T1'' 10) = None"
    by (simp add: updateSelectedParts_off)
  from deselect_idempotent [of ex_selected "[10]" "''C1''" "''T1''"]
       deselect_idempotent [of ex_state "[10]" "''C1''" "''T1''"] a b c
  show ?thesis by simp
qed

subsection \<open>The aggregate query\<close>

text \<open>
  For a category that has a list of repair types, \<^verbatim>\<open>isAllPartsInCategorySelected\<close>
  returns true exactly when the key of every part in the included and excluded lists of
  every repair type of the category is in the selected registry. A repair type without
  parts and a category with an empty list of repair types give true.
\<close>

lemma isAllPartsInCategorySelected_iff:
  "repairTypes c = Some tors \<Longrightarrow>
   isAllPartsInCategorySelected s c
     = Inr (\<forall>t \<in> set tors. \<forall>p \<in> set (partsIncluded t) \<union> set (partsExcluded t).
              partKey s (categoryId c) (torId t) p \<in> dom (selectedParts s))"
  by (auto simp: isAllPartsInCategorySelected_def isAllPartsInTORSelected_def partKey_def
      list_all_iff)

lemma isAllPartsInCategorySelected_examples:
  "isAllPartsInCategorySelected ex_selected ex_category = Inr False
   \<and> isAllPartsInCategorySelected ex_selected (ex_category\<lparr>repairTypes := Some []\<rparr>) = Inr True
   \<and> isAllPartsInCategorySelected ex_selected
        (ex_category\<lparr>repairTypes := Some [ex_tor\<lparr>partsIncluded := [], partsExcluded := []\<rparr>]\<rparr>)
      = Inr True"
proof -
  have r: "repairTypes ex_category = Some [ex_tor]"
    by (simp add: ex_category_def)
  have k: "partKey ex_selected ''C1'' ''T1'' 11 \<notin> dom (selectedParts ex_selected)"
    by (simp add: ex_selected_def ex_state_def partKey_def getUKey_def ex_heap_def)
  from isAllPartsInCategorySelected_iff [OF r, of ex_selected]
       isAllPartsInCategorySelected_iff [of "ex_category\<lparr>repairTypes := Some []\<rparr>" "[]" ex_selected]
       isAllPartsInCategorySelected_iff [of
         "ex_category\<lparr>repairTypes := Some [ex_tor\<lparr>partsIncluded := [], partsExcluded := []\<rparr>]\<rparr>"
         "[ex_tor\<lparr>partsIncluded := [], partsExcluded := []\<rparr>]" ex_selected]
       r k
  show ?thesis
    by (simp add: ex_category_def ex_tor_def)
qed

text \<open>
  C2 holds of every category that has a list of repair types, as the lemmas above say.
  It fails on a category whose list is absent: the claim gives true for it, as there is
  no repair type to check, and \<^verbatim>\<open>isAllPartsInCategorySelected\<close> raises a \<^verbatim>\<open>TypeError\<close>, for
  \<^verbatim>\<open>category.repairTypes.map\<close> is called without a test. \<^verbatim>\<open>createPartsMatrix\<close> tests
  \<^verbatim>\<open>!repairTypes\<close> and passes such a category over.
\<close>

theorem isAllPartsInCategorySelected_absent_list:
  "isAllPartsInCategorySelected s (c\<lparr>repairTypes := None\<rparr>) = Inl TypeError
   \<and> category_step env (c\<lparr>repairTypes := None\<rparr>) ms = Returns ms"
  by (simp add: isAllPartsInCategorySelected_def category_step_def)

subsection \<open>Selection\<close>

lemma updateSelectedPart_on:
  "updateSelectedPart cid tid True a s
   = s\<lparr>heap := (heap s)(a := (heap s a)\<lparr>qty := keptQty s (partKey s cid tid a)\<rparr>),
       selectedParts := (selectedParts s)(partKey s cid tid a \<mapsto>
          categorize cid tid ((heap s a)\<lparr>qty := keptQty s (partKey s cid tid a)\<rparr>))\<rparr>"
  by (simp add: updateSelectedPart_def partKey_def keptQty_def Let_def)

lemma qty_categorize: "qty (categorize cid tid p) = qty p"
  by (simp add: categorize_def)

text \<open>
  The state after selecting a list of parts, in closed form: every input part has the
  kept quantity of its key, and under every input key stands the entry made from the last
  input part with that key.
\<close>

lemma updateSelectedParts_on:
  "updateSelectedParts s parts cid tid True
   = s\<lparr>heap := (\<lambda>b. if b \<in> set parts
                      then (heap s b)\<lparr>qty := keptQty s (partKey s cid tid b)\<rparr>
                      else heap s b),
       selectedParts := (\<lambda>k. if k \<in> partKey s cid tid ` set parts
                               then Some (selectedEntry s cid tid parts k)
                               else selectedParts s k)\<rparr>"
  (is "_ = ?R parts")
proof (induction parts rule: rev_induct)
  case Nil
  show ?case by (simp add: updateSelectedParts_def)
next
  case (snoc a parts)
  let ?s1 = "?R parts"
  let ?key = "partKey s cid tid"
  have key1: "partKey ?s1 cid tid b = ?key b" for b
    by (simp add: partKey_def getUKey_def)
  have kept1: "keptQty ?s1 k = keptQty s k" for k
    by (simp add: keptQty_def selectedEntry_def qty_categorize)
  have "updateSelectedParts s (parts @ [a]) cid tid True
        = updateSelectedPart cid tid True a (updateSelectedParts s parts cid tid True)"
    by (simp add: updateSelectedParts_def)
  also have "\<dots> = updateSelectedPart cid tid True a ?s1"
    by (simp only: snoc.IH)
  also have "\<dots> = ?s1\<lparr>heap := (heap ?s1)(a := (heap ?s1 a)\<lparr>qty := keptQty s (?key a)\<rparr>),
       selectedParts := (selectedParts ?s1)(?key a \<mapsto>
          categorize cid tid ((heap ?s1 a)\<lparr>qty := keptQty s (?key a)\<rparr>))\<rparr>"
    by (simp only: updateSelectedPart_on key1 kept1)
  also have "\<dots> = ?R (parts @ [a])"
  proof -
    have h: "(heap ?s1)(a := (heap ?s1 a)\<lparr>qty := keptQty s (?key a)\<rparr>)
          = (\<lambda>b. if b \<in> set (parts @ [a])
                      then (heap s b)\<lparr>qty := keptQty s (?key b)\<rparr>
                      else heap s b)"
      by (rule ext) simp
    have e: "categorize cid tid ((heap ?s1 a)\<lparr>qty := keptQty s (?key a)\<rparr>)
          = categorize cid tid ((heap s a)\<lparr>qty := keptQty s (?key a)\<rparr>)"
      by simp
    have g: "(selectedParts ?s1)(?key a \<mapsto>
                categorize cid tid ((heap s a)\<lparr>qty := keptQty s (?key a)\<rparr>))
          = (\<lambda>k. if k \<in> ?key ` set (parts @ [a])
                               then Some (selectedEntry s cid tid (parts @ [a]) k)
                               else selectedParts s k)"
      by (rule ext) (auto simp: selectedEntry_def lastWithKey_def)
    show ?thesis
      unfolding e unfolding h g by simp
  qed
  finally show ?case .
qed

lemma lastWithKey_only:
  assumes "a \<in> set parts"
    and "\<forall>b \<in> set parts. partKey s cid tid b = partKey s cid tid a \<longrightarrow> b = a"
  shows "lastWithKey s cid tid parts (partKey s cid tid a) = a"
proof -
  let ?xs = "filter (\<lambda>b. partKey s cid tid b = partKey s cid tid a) parts"
  from assms(1) have "a \<in> set ?xs" by simp
  then have "?xs \<noteq> []" by (cases ?xs) simp_all
  then have "last ?xs \<in> set ?xs" by (rule last_in_set)
  with assms(2) show ?thesis
    by (simp add: lastWithKey_def)
qed

lemma ex_keys:
  "partKey ex_selected ''C1'' ''T1'' 10 = ''pre_C1_T1_P1_A''"
  "partKey ex_selected ''C1'' ''T1'' 11 = ''pre_C1_T1_P2_B''"
  "partKey ex_selected ''C1'' ''T1'' 12 = ''pre_C1_T1_P1_A''"
  "partKey ex_state ''C1'' ''T1'' 10 = ''pre_C1_T1_P1_A''"
  "partKey ex_state ''C1'' ''T1'' 11 = ''pre_C1_T1_P2_B''"
  "partKey ex_state ''C1'' ''T1'' 12 = ''pre_C1_T1_P1_A''"
  by (simp_all add: partKey_def getUKey_def ex_selected_def ex_state_def ex_heap_def)

lemma ex_selected_simps:
  "selectedParts ex_selected ''pre_C1_T1_P1_A'' = Some ex_priced"
  "selectedParts ex_selected ''pre_C1_T1_P2_B'' = None"
  "heap ex_selected = ex_heap"
  "heap ex_state = ex_heap"
  "selectedParts ex_state = Map.empty"
  by (simp_all add: ex_selected_def ex_state_def)

lemma updateSelectedParts_step:
  "selectedParts (updateSelectedParts s (ps @ [a]) cid tid True)
   = (selectedParts (updateSelectedParts s ps cid tid True))
       (partKey s cid tid a \<mapsto>
          categorize cid tid ((heap s a)\<lparr>qty := keptQty s (partKey s cid tid a)\<rparr>))"
proof -
  let ?s1 = "updateSelectedParts s ps cid tid True"
  have key1: "partKey ?s1 cid tid b = partKey s cid tid b" for b
    by (simp add: updateSelectedParts_on partKey_def getUKey_def)
  have kept1: "keptQty ?s1 k = keptQty s k" for k
    by (simp add: updateSelectedParts_on keptQty_def selectedEntry_def qty_categorize)
  have h: "(heap ?s1 a)\<lparr>qty := q\<rparr> = (heap s a)\<lparr>qty := q\<rparr>" for q
    by (simp add: updateSelectedParts_on)
  have "updateSelectedParts s (ps @ [a]) cid tid True = updateSelectedPart cid tid True a ?s1"
    by (simp add: updateSelectedParts_def)
  then show ?thesis
    by (simp add: updateSelectedPart_on key1 kept1 h)
qed

text \<open>
  C1. With \<open>checked = true\<close>, \<^verbatim>\<open>updateSelectedParts\<close> writes for each input part in turn
  an entry under the part's key that holds the given category and repair-type ids and the
  part's fields, with the quantity of the entry that stood under the key before the call,
  or 1 when there was none. After the call the entry under the key of every input part
  has these ids and this quantity, and the other fields of the last input part with that
  key: of the part itself when no other input part has its key. With \<open>checked = false\<close>,
  the key of every input part is removed.
\<close>

theorem updateSelectedParts_registry:
  "(\<forall>ps a qs. parts = ps @ a # qs \<longrightarrow>
      selectedParts (updateSelectedParts s (ps @ [a]) cid tid True)
      = (selectedParts (updateSelectedParts s ps cid tid True))
          (partKey s cid tid a \<mapsto>
             categorize cid tid
               ((heap s a)\<lparr>qty := (case selectedParts s (partKey s cid tid a) of
                                      Some e \<Rightarrow> qty e
                                    | None \<Rightarrow> Some 1)\<rparr>)))
   \<and> (\<forall>a \<in> set parts.
        selectedParts (updateSelectedParts s parts cid tid True) (partKey s cid tid a)
        = Some (categorize cid tid
                 ((heap s (lastWithKey s cid tid parts (partKey s cid tid a)))
                    \<lparr>qty := (case selectedParts s (partKey s cid tid a) of
                               Some e \<Rightarrow> qty e
                             | None \<Rightarrow> Some 1)\<rparr>)))
   \<and> (\<forall>a \<in> set parts.
        (\<forall>b \<in> set parts. partKey s cid tid b = partKey s cid tid a \<longrightarrow> b = a) \<longrightarrow>
        selectedParts (updateSelectedParts s parts cid tid True) (partKey s cid tid a)
        = Some (categorize cid tid
                 ((heap s a)\<lparr>qty := (case selectedParts s (partKey s cid tid a) of
                                       Some e \<Rightarrow> qty e
                                     | None \<Rightarrow> Some 1)\<rparr>)))
   \<and> (\<forall>a \<in> set parts.
        selectedParts (updateSelectedParts s parts cid tid False) (partKey s cid tid a) = None)"
proof (intro conjI ballI impI allI)
  fix ps a qs
  show "selectedParts (updateSelectedParts s (ps @ [a]) cid tid True)
      = (selectedParts (updateSelectedParts s ps cid tid True))
          (partKey s cid tid a \<mapsto>
             categorize cid tid
               ((heap s a)\<lparr>qty := (case selectedParts s (partKey s cid tid a) of
                                      Some e \<Rightarrow> qty e
                                    | None \<Rightarrow> Some 1)\<rparr>))"
    using updateSelectedParts_step [of s ps a cid tid] by (simp add: keptQty_def)
next
  fix a assume "a \<in> set parts"
  then show "selectedParts (updateSelectedParts s parts cid tid True) (partKey s cid tid a)
      = Some (categorize cid tid
               ((heap s (lastWithKey s cid tid parts (partKey s cid tid a)))
                  \<lparr>qty := (case selectedParts s (partKey s cid tid a) of
                             Some e \<Rightarrow> qty e
                           | None \<Rightarrow> Some 1)\<rparr>))"
    by (simp add: updateSelectedParts_on selectedEntry_def keptQty_def)
next
  fix a assume a: "a \<in> set parts"
    and only: "\<forall>b \<in> set parts. partKey s cid tid b = partKey s cid tid a \<longrightarrow> b = a"
  have "lastWithKey s cid tid parts (partKey s cid tid a) = a"
    using a only by (rule lastWithKey_only)
  with a show "selectedParts (updateSelectedParts s parts cid tid True) (partKey s cid tid a)
        = Some (categorize cid tid
                 ((heap s a)\<lparr>qty := (case selectedParts s (partKey s cid tid a) of
                                       Some e \<Rightarrow> qty e
                                     | None \<Rightarrow> Some 1)\<rparr>))"
    by (simp add: updateSelectedParts_on selectedEntry_def keptQty_def)
next
  fix a assume "a \<in> set parts"
  then show "selectedParts (updateSelectedParts s parts cid tid False) (partKey s cid tid a) = None"
    by (simp add: updateSelectedParts_off)
qed

theorem updateSelectedParts_registry_witness:
  "selectedParts ex_selected ''pre_C1_T1_P1_A'' = Some ex_priced
   \<and> qty ex_priced = Some 3
   \<and> selectedParts ex_selected ''pre_C1_T1_P2_B'' = None
   \<and> selectedParts (updateSelectedParts ex_selected [10, 11] ''C1'' ''T1'' True)
       = (selectedParts (updateSelectedParts ex_selected [10] ''C1'' ''T1'' True))
           (''pre_C1_T1_P2_B'' \<mapsto>
              \<lparr>partNumber = ''P2'', sOS = ''B'', isExcluded = Some False, qty = Some 1,
               cpCategoryId = ''C1'', cpTorId = ''T1''\<rparr>)
   \<and> selectedParts (updateSelectedParts ex_selected [10, 11] ''C1'' ''T1'' True) ''pre_C1_T1_P1_A''
       = Some \<lparr>partNumber = ''P1'', sOS = ''A'', isExcluded = None, qty = Some 3,
               cpCategoryId = ''C1'', cpTorId = ''T1''\<rparr>
   \<and> selectedParts (updateSelectedParts ex_selected [10, 11] ''C1'' ''T1'' True) ''pre_C1_T1_P2_B''
       = Some \<lparr>partNumber = ''P2'', sOS = ''B'', isExcluded = Some False, qty = Some 1,
               cpCategoryId = ''C1'', cpTorId = ''T1''\<rparr>
   \<and> selectedParts (updateSelectedParts ex_selected [10, 11] ''C1'' ''T1'' False) ''pre_C1_T1_P1_A''
       = None"
proof -
  note th = updateSelectedParts_registry [of "[10, 11]" ex_selected "''C1''" "''T1''"]
  have l: "lastWithKey ex_selected ''C1'' ''T1'' [10, 11] ''pre_C1_T1_P1_A'' = 10"
    "lastWithKey ex_selected ''C1'' ''T1'' [10, 11] ''pre_C1_T1_P2_B'' = 11"
    by (simp_all add: lastWithKey_def ex_keys)
  have q: "qty ex_priced = Some 3"
    by (simp add: ex_priced_def categorize_def)
  have s: "selectedParts (updateSelectedParts ex_selected [10, 11] ''C1'' ''T1'' True)
       = (selectedParts (updateSelectedParts ex_selected [10] ''C1'' ''T1'' True))
           (''pre_C1_T1_P2_B'' \<mapsto>
              \<lparr>partNumber = ''P2'', sOS = ''B'', isExcluded = Some False, qty = Some 1,
               cpCategoryId = ''C1'', cpTorId = ''T1''\<rparr>)"
    using th [THEN conjunct1, rule_format, of "[10]" 11 "[]"]
    by (simp add: ex_keys ex_selected_simps) (simp add: ex_heap_def categorize_def)
  have a: "selectedParts (updateSelectedParts ex_selected [10, 11] ''C1'' ''T1'' True) ''pre_C1_T1_P1_A''
       = Some \<lparr>partNumber = ''P1'', sOS = ''A'', isExcluded = None, qty = Some 3,
               cpCategoryId = ''C1'', cpTorId = ''T1''\<rparr>"
    using th [THEN conjunct2, THEN conjunct1, rule_format, of 10]
    by (simp add: ex_keys l ex_selected_simps q) (simp add: ex_heap_def categorize_def)
  have b: "selectedParts (updateSelectedParts ex_selected [10, 11] ''C1'' ''T1'' True) ''pre_C1_T1_P2_B''
       = Some \<lparr>partNumber = ''P2'', sOS = ''B'', isExcluded = Some False, qty = Some 1,
               cpCategoryId = ''C1'', cpTorId = ''T1''\<rparr>"
    using th [THEN conjunct2, THEN conjunct1, rule_format, of 11]
    by (simp add: ex_keys l ex_selected_simps) (simp add: ex_heap_def categorize_def)
  have c: "selectedParts (updateSelectedParts ex_selected [10, 11] ''C1'' ''T1'' False) ''pre_C1_T1_P1_A''
       = None"
    using th [THEN conjunct2, THEN conjunct2, THEN conjunct2, rule_format, of 10]
    by (simp add: ex_keys)
  from s a b c q show ?thesis
    by (simp add: ex_selected_simps)
qed

text \<open>
  Two input parts with one key: selecting references 10 and 12, both \<open>P1/A\<close>, leaves
  under their key the entry written for reference 12, with its exclusion flag.
\<close>

lemma updateSelectedParts_shared_key:
  "partKey ex_state ''C1'' ''T1'' 10 = ''pre_C1_T1_P1_A''
   \<and> partKey ex_state ''C1'' ''T1'' 12 = ''pre_C1_T1_P1_A''
   \<and> selectedParts (updateSelectedParts ex_state [10, 12] ''C1'' ''T1'' True) ''pre_C1_T1_P1_A''
       = Some (categorize ''C1'' ''T1'' ((heap ex_state 12)\<lparr>qty := Some 1\<rparr>))
   \<and> isExcluded (heap ex_state 12) = Some True
   \<and> isExcluded (heap ex_state 10) = None"
  by (simp add: updateSelectedParts_def updateSelectedPart_def ex_state_def ex_heap_def
      partKey_def getUKey_def categorize_def Let_def)

text \<open>
  C10. Selecting writes to the part objects themselves: after the call every input part
  has the quantity kept for its key, which is the quantity of the entry under that key;
  no other field of any part and no part outside the input changes. Deselecting leaves
  the store as it was.
\<close>

theorem updateSelectedParts_store:
  "(\<forall>a \<in> set parts.
      qty (heap (updateSelectedParts s parts cid tid True) a)
        = (case selectedParts s (partKey s cid tid a) of Some e \<Rightarrow> qty e | None \<Rightarrow> Some 1)
      \<and> map_option qty
           (selectedParts (updateSelectedParts s parts cid tid True) (partKey s cid tid a))
        = Some (qty (heap (updateSelectedParts s parts cid tid True) a)))
   \<and> (\<forall>a. heap (updateSelectedParts s parts cid tid True) a
           = (heap s a)\<lparr>qty := qty (heap (updateSelectedParts s parts cid tid True) a)\<rparr>)
   \<and> (\<forall>a. a \<notin> set parts \<longrightarrow> heap (updateSelectedParts s parts cid tid True) a = heap s a)
   \<and> heap (updateSelectedParts s parts cid tid False) = heap s"
  by (simp add: updateSelectedParts_on updateSelectedParts_off selectedEntry_def keptQty_def
      qty_categorize)

theorem updateSelectedParts_store_witness:
  "qty (heap ex_selected 10) = None
   \<and> qty (heap (updateSelectedParts ex_selected [10, 11] ''C1'' ''T1'' True) 10) = Some 3
   \<and> qty (heap (updateSelectedParts ex_selected [10, 11] ''C1'' ''T1'' True) 11) = Some 1
   \<and> heap (updateSelectedParts ex_selected [10, 11] ''C1'' ''T1'' True) 12 = heap ex_selected 12
   \<and> heap (updateSelectedParts ex_selected [10, 11] ''C1'' ''T1'' False) = heap ex_selected"
proof -
  note th = updateSelectedParts_store [of "[10, 11]" ex_selected "''C1''" "''T1''"]
  have q: "qty ex_priced = Some 3"
    by (simp add: ex_priced_def categorize_def)
  have a: "qty (heap (updateSelectedParts ex_selected [10, 11] ''C1'' ''T1'' True) 10) = Some 3"
    using th [THEN conjunct1, rule_format, of 10]
    by (simp add: ex_keys ex_selected_simps q)
  have b: "qty (heap (updateSelectedParts ex_selected [10, 11] ''C1'' ''T1'' True) 11) = Some 1"
    using th [THEN conjunct1, rule_format, of 11]
    by (simp add: ex_keys ex_selected_simps)
  have c: "heap (updateSelectedParts ex_selected [10, 11] ''C1'' ''T1'' True) 12 = heap ex_selected 12"
    using th [THEN conjunct2, THEN conjunct2, THEN conjunct1, rule_format, of 12]
    by simp
  have d: "heap (updateSelectedParts ex_selected [10, 11] ''C1'' ''T1'' False) = heap ex_selected"
    using th by simp
  have e: "qty (heap ex_selected 10) = None"
    by (simp add: ex_selected_simps ex_heap_def)
  from a b c d e show ?thesis by simp
qed

section \<open>The matrix builder\<close>

subsection \<open>Objects and first occurrences\<close>

lemma js_get_js_set: "js_get (js_set obj k v) k' = (if k' = k then Some v else js_get obj k')"
  by (induction obj) (auto simp: js_get_def)

lemma keys_js_set:
  "map fst (js_set obj k v) = (if k \<in> set (map fst obj) then map fst obj else map fst obj @ [k])"
  by (induction obj) force+

lemma set_own_key_order: "set (own_key_order ks) = set ks"
  by (auto simp: own_key_order_def)

lemma length_own_key_order: "length (own_key_order ks) = length ks"
  by (simp add: own_key_order_def sum_length_filter_compl)

lemma distinct_own_key_order: "distinct ks \<Longrightarrow> distinct (own_key_order ks)"
  by (auto simp: own_key_order_def)

lemma own_key_order_plain: "\<forall>k \<in> set ks. \<not> is_array_index k \<Longrightarrow> own_key_order ks = ks"
  by (simp add: own_key_order_def filter_empty_conv)

lemma firstSeen_snoc:
  "firstSeen (xs @ [x]) = (if x \<in> set xs then firstSeen xs else firstSeen xs @ [x])"
  by (simp add: firstSeen_def)

lemma firstSeen_Nil: "firstSeen [] = []"
  by (simp add: firstSeen_def)

lemma set_firstSeen: "set (firstSeen xs) = set xs"
  by (simp add: firstSeen_def)

lemma distinct_firstSeen: "distinct (firstSeen xs)"
  by (simp add: firstSeen_def)

lemma length_firstSeen: "length (firstSeen xs) = length (remdups xs)"
  by (simp add: firstSeen_def length_remdups_card_conv)

lemma rowOf_putCell:
  "rowOf (putCell p m) tid
   = (if tid = torId (snd p) then js_set (rowOf m tid) (fst p) (cellOf (snd p)) else rowOf m tid)"
  by (simp add: rowOf_def putCell_def js_get_js_set)

lemma keys_putCell:
  "map fst (putCell p m)
   = (if torId (snd p) \<in> set (map fst m) then map fst m else map fst m @ [torId (snd p)])"
  by (simp add: putCell_def keys_js_set)

lemma builtMatrix_snoc: "builtMatrix (pairs @ [p]) = putCell p (builtMatrix pairs)"
  by (simp add: builtMatrix_def)

lemma keys_builtMatrix: "map fst (builtMatrix pairs) = firstSeen (map (torId \<circ> snd) pairs)"
proof (induction pairs rule: rev_induct)
  case Nil
  show ?case by (simp add: builtMatrix_def firstSeen_Nil)
next
  case (snoc p pairs)
  then show ?case
    by (simp add: builtMatrix_snoc keys_putCell firstSeen_snoc set_firstSeen)
qed

lemma categoriesOf_snoc:
  "categoriesOf (pairs @ [p]) tid
   = (if torId (snd p) = tid then categoriesOf pairs tid @ [fst p] else categoriesOf pairs tid)"
  by (simp add: categoriesOf_def)

lemma row_keys_builtMatrix:
  "map fst (rowOf (builtMatrix pairs) tid) = firstSeen (categoriesOf pairs tid)"
proof (induction pairs rule: rev_induct)
  case Nil
  show ?case by (simp add: builtMatrix_def firstSeen_Nil rowOf_def js_get_def categoriesOf_def)
next
  case (snoc p pairs)
  then show ?case
    by (simp add: builtMatrix_snoc rowOf_putCell keys_js_set firstSeen_snoc set_firstSeen
        categoriesOf_snoc)
qed

lemma lastPair_snoc:
  "lastPair (pairs @ [p]) cid tid
   = (if fst p = cid \<and> torId (snd p) = tid then Some p else lastPair pairs cid tid)"
  by (simp add: lastPair_def)

lemma cellAt_builtMatrix:
  "cellAt (builtMatrix pairs) tid cid = map_option (cellOf \<circ> snd) (lastPair pairs cid tid)"
proof (induction pairs rule: rev_induct)
  case Nil
  show ?case by (simp add: builtMatrix_def cellAt_def rowOf_def js_get_def lastPair_def)
next
  case (snoc p pairs)
  then show ?case
    by (auto simp: builtMatrix_snoc cellAt_def rowOf_putCell js_get_js_set lastPair_snoc)
qed


lemma cellAt_putCell:
  "cellAt (putCell p m) tid cid
   = (if tid = torId (snd p) \<and> cid = fst p then Some (cellOf (snd p)) else cellAt m tid cid)"
  by (simp add: cellAt_def rowOf_putCell js_get_js_set)

lemma distinct_keys_putCell: "distinct (map fst m) \<Longrightarrow> distinct (map fst (putCell p m))"
  by (simp add: keys_putCell)

lemma distinct_row_keys_putCell:
  "distinct (map fst (rowOf m tid)) \<Longrightarrow> distinct (map fst (rowOf (putCell p m) tid))"
  by (auto simp: rowOf_putCell keys_js_set)

subsection \<open>Loops that can raise\<close>

lemma forEach_invariant:
  assumes step: "\<And>y x x' seen. P seen x \<Longrightarrow> f y x = Returns x' \<Longrightarrow> P (seen @ g y) x'"
    and init: "P seen x"
    and run: "forEach f ys x = Returns x'"
  shows "P (seen @ concat (map g ys)) x'"
  using init run
proof (induction ys arbitrary: seen x)
  case Nil
  then show ?case by simp
next
  case (Cons y ys)
  from Cons.prems(2) obtain x1 where y: "f y x = Returns x1"
    and rest: "forEach f ys x1 = Returns x'"
    by (auto split: outcome.splits)
  from step [OF Cons.prems(1) y] have "P (seen @ g y) x1" .
  from Cons.IH [OF this rest] show ?case by simp
qed

lemma forEach_final:
  assumes step: "\<And>y x. R x (final (f y x))"
    and refl: "\<And>x. R x x"
    and trans: "\<And>x y z. R x y \<Longrightarrow> R y z \<Longrightarrow> R x z"
  shows "R x (final (forEach f ys x))"
proof (induction ys arbitrary: x)
  case Nil
  show ?case by (simp add: refl)
next
  case (Cons y ys)
  show ?case
  proof (cases "f y x")
    case (Returns x1)
    from step [of x y] Returns have "R x x1" by simp
    from trans [OF this Cons.IH [of x1]] Returns show ?thesis by simp
  next
    case (Raises e x1)
    with step [of x y] show ?thesis by simp
  qed
qed

subsection \<open>One turn of the inner loop\<close>

lemma mark_excluded_append:
  "mark_excluded h (ps @ qs) = mark_excluded (mark_excluded h ps) qs"
  by (induction ps arbitrary: h) simp_all

lemma mark_excluded_apply:
  "mark_excluded h ps a = (if a \<in> set ps then (h a)\<lparr>isExcluded := Some True\<rparr> else h a)"
  by (induction ps arbitrary: h) auto

lemma escapeAt_Returns:
  assumes "escapeAt env e excl (m, s) = Returns ms'"
  shows "ms' = (m, s\<lparr>escapes := escapes s @ [e], heap := mark_excluded (heap s) excl\<rparr>)"
  using assms by (auto simp: escapeAt_def Let_def split: escape_result.splits)

lemma repairType_step_Returns:
  assumes "repairType_step env cid rt (m, s) = Returns (m', s')"
  shows "heap s' = mark_excluded (heap s) (partsExcluded rt)
         \<and> (m' = putCell (cid, rt) m \<or> (m' = m \<and> cellAt m (torId rt) cid = None))"
proof (cases "js_get m (torId rt)")
  case None
  then have "cellAt m (torId rt) cid = None"
    by (simp add: cellAt_def rowOf_def js_get_def)
  with assms None show ?thesis
    by (auto simp: repairType_step_def Let_def split: if_splits dest!: escapeAt_Returns)
next
  case (Some row)
  then have "cellAt m (torId rt) cid = js_get row cid"
    by (simp add: cellAt_def rowOf_def)
  with assms Some show ?thesis
    by (auto simp: repairType_step_def Let_def split: if_splits option.splits
        dest!: escapeAt_Returns)
qed

lemma repairType_step_safe:
  assumes "\<not> inherited env (escapes s) (torId rt)" "\<not> inherited env (escapes s) cid"
  shows "repairType_step env cid rt (m, s)
         = Returns (putCell (cid, rt) m,
                    s\<lparr>torsById := table_set (torsById s) (torId rt) (torId rt, torTitle rt),
                      heap := mark_excluded (heap s) (partsExcluded rt)\<rparr>)"
  using assms by (simp add: repairType_step_def Let_def split: option.splits)

lemma dom_table_set: "dom t \<subseteq> dom (table_set t k v)"
  by (auto simp: table_set_def)

lemma repairType_step_tables:
  "categoriesById (snd (final (repairType_step env cid rt ms))) = categoriesById (snd ms)
   \<and> torsById (snd (final (repairType_step env cid rt ms)))
       = table_set (torsById (snd ms)) (torId rt) (torId rt, torTitle rt)"
  by (cases ms)
     (simp add: repairType_step_def escapeAt_def Let_def
        split: option.splits escape_result.splits)

subsection \<open>What the loops keep\<close>

lemma excludedOf_snoc: "excludedOf (seen @ [p]) = excludedOf seen @ partsExcluded (snd p)"
  by (simp add: excludedOf_def)

lemma excludedOf_append: "excludedOf (ps @ qs) = excludedOf ps @ excludedOf qs"
  by (simp add: excludedOf_def)

lemma builderInv_init: "builderInv (heap s) [] ([], s)"
  by (simp add: builderInv_def cellAt_def rowOf_def js_get_def)

lemma builderInv_tables:
  "builderInv h0 seen (m, s) \<Longrightarrow> builderInv h0 seen (m, s\<lparr>categoriesById := t\<rparr>)"
  by (simp add: builderInv_def)

lemma builderInv_step:
  assumes inv: "builderInv h0 seen (m, s)"
    and step: "repairType_step env cid rt (m, s) = Returns ms'"
  shows "builderInv h0 (seen @ [(cid, rt)]) ms'"
proof -
  obtain m' s' where ms': "ms' = (m', s')" by (cases ms')
  from step ms' have st: "repairType_step env cid rt (m, s) = Returns (m', s')"
    by simp
  from repairType_step_Returns [OF st]
  have hp: "heap s' = mark_excluded (heap s) (partsExcluded rt)"
    and mat: "m' = putCell (cid, rt) m \<or> (m' = m \<and> cellAt m (torId rt) cid = None)"
    by simp_all
  from inv have dk: "distinct (map fst m)"
    and dr: "\<And>tid. distinct (map fst (rowOf m tid))"
    and cells: "\<And>tid cid c. cellAt m tid cid = Some c \<Longrightarrow>
              (\<exists>p. lastPair seen cid tid = Some p \<and> c = cellOf (snd p))
              \<and> (\<forall>a \<in> set (excluded c). isExcluded (heap s a) = Some True)"
    and store: "\<And>a. heap s a = h0 a
                \<or> (a \<in> set (excludedOf seen) \<and> heap s a = (h0 a)\<lparr>isExcluded := Some True\<rparr>)"
    by (simp_all add: builderInv_def)
  have keep: "isExcluded (heap s' a) = Some True" if "isExcluded (heap s a) = Some True" for a
    using that by (simp add: hp mark_excluded_apply)
  have dk': "distinct (map fst m')"
    using mat dk by (auto simp: distinct_keys_putCell)
  have dr': "distinct (map fst (rowOf m' tid))" for tid
    using mat dr [of tid] by (auto simp: distinct_row_keys_putCell)
  have cells': "(\<exists>p. lastPair (seen @ [(cid, rt)]) cid' tid = Some p \<and> c = cellOf (snd p))
              \<and> (\<forall>a \<in> set (excluded c). isExcluded (heap s' a) = Some True)"
    if c: "cellAt m' tid cid' = Some c" for tid cid' c
  proof (cases "tid = torId rt \<and> cid' = cid")
    case True
    with mat c have "c = cellOf rt"
      by (auto simp: cellAt_putCell)
    with True show ?thesis
      by (simp add: lastPair_snoc cellOf_def hp mark_excluded_apply)
  next
    case False
    with mat c have "cellAt m tid cid' = Some c"
      by (auto simp: cellAt_putCell)
    from cells [OF this] False keep show ?thesis
      by (auto simp: lastPair_snoc)
  qed
  have store': "heap s' a = h0 a
                \<or> (a \<in> set (excludedOf (seen @ [(cid, rt)]))
                    \<and> heap s' a = (h0 a)\<lparr>isExcluded := Some True\<rparr>)" for a
    using store [of a] by (auto simp: hp mark_excluded_apply excludedOf_snoc)
  from dk' dr' cells' store' show ?thesis
    by (simp add: ms' builderInv_def)
qed

lemma catalogPairs_Cons:
  "catalogPairs (c # cats)
   = (case repairTypes c of None \<Rightarrow> [] | Some tors \<Rightarrow> map (Pair (categoryId c)) tors)
     @ catalogPairs cats"
  by (simp add: catalogPairs_def split: option.split)

lemma catalogPairs_concat: "concat (map (\<lambda>c. catalogPairs [c]) cats) = catalogPairs cats"
  by (simp add: catalogPairs_def)

lemma builderInv_category_step:
  assumes inv: "builderInv h0 seen ms"
    and step: "category_step env c ms = Returns ms'"
  shows "builderInv h0 (seen @ catalogPairs [c]) ms'"
proof (cases "repairTypes c")
  case None
  with inv step show ?thesis
    by (simp add: category_step_def catalogPairs_def)
next
  case (Some tors)
  obtain m s where ms: "ms = (m, s)" by (cases ms)
  let ?s1 = "s\<lparr>categoriesById :=
                 table_set (categoriesById s) (categoryId c) (categoryId c, title c)\<rparr>"
  from step Some ms
  have run: "forEach (repairType_step env (categoryId c)) tors (m, ?s1) = Returns ms'"
    by (simp add: category_step_def)
  from inv ms have init: "builderInv h0 seen (m, ?s1)"
    by (simp add: builderInv_tables)
  have "builderInv h0 (seen @ concat (map (\<lambda>rt. [(categoryId c, rt)]) tors)) ms'"
  proof (rule forEach_invariant [where P = "builderInv h0"
        and f = "repairType_step env (categoryId c)", OF _ init run])
    fix y x x' seen'
    assume "builderInv h0 seen' x" and "repairType_step env (categoryId c) y x = Returns x'"
    then show "builderInv h0 (seen' @ [(categoryId c, y)]) x'"
      by (cases x) (auto intro: builderInv_step)
  qed
  moreover have "concat (map (\<lambda>rt. [(categoryId c, rt)]) tors) = catalogPairs [c]"
    by (simp add: catalogPairs_def Some)
  ultimately show ?thesis by simp
qed

lemma builderInv_run:
  assumes "forEach (category_step env) cats ([], s) = Returns ms'"
  shows "builderInv (heap s) (catalogPairs cats) ms'"
proof -
  have "builderInv (heap s) ([] @ concat (map (\<lambda>c. catalogPairs [c]) cats)) ms'"
    by (rule forEach_invariant [where P = "builderInv (heap s)" and f = "category_step env",
          OF _ builderInv_init assms])
       (rule builderInv_category_step)
  then show ?thesis
    by (simp add: catalogPairs_concat)
qed

subsection \<open>Runs that do not escape\<close>

lemma forEach_repairType_step_safe:
  assumes "\<not> inherited env (escapes s) cid"
    and "\<forall>rt \<in> set tors. \<not> inherited env (escapes s) (torId rt)"
  shows "\<exists>s'. forEach (repairType_step env cid) tors (m, s)
               = Returns (fold putCell (map (Pair cid) tors) m, s')
            \<and> heap s' = mark_excluded (heap s) (excludedOf (map (Pair cid) tors))
            \<and> escapes s' = escapes s"
  using assms
proof (induction tors arbitrary: m s)
  case Nil
  show ?case by (simp add: excludedOf_def)
next
  case (Cons rt tors)
  let ?s1 = "s\<lparr>torsById := table_set (torsById s) (torId rt) (torId rt, torTitle rt),
               heap := mark_excluded (heap s) (partsExcluded rt)\<rparr>"
  from Cons.prems have one: "repairType_step env cid rt (m, s) = Returns (putCell (cid, rt) m, ?s1)"
    by (simp add: repairType_step_safe)
  from Cons.prems have "\<not> inherited env (escapes ?s1) cid"
    and "\<forall>rt \<in> set tors. \<not> inherited env (escapes ?s1) (torId rt)"
    by simp_all
  from Cons.IH [OF this, of "putCell (cid, rt) m"] obtain s' where
    "forEach (repairType_step env cid) tors (putCell (cid, rt) m, ?s1)
       = Returns (fold putCell (map (Pair cid) tors) (putCell (cid, rt) m), s')"
    and "heap s' = mark_excluded (heap ?s1) (excludedOf (map (Pair cid) tors))"
    and "escapes s' = escapes ?s1"
    by blast
  with one show ?case
    by (simp add: excludedOf_def mark_excluded_append)
qed

lemma category_step_safe:
  assumes "safeIds env s [c]"
  shows "\<exists>s'. category_step env c (m, s) = Returns (fold putCell (catalogPairs [c]) m, s')
            \<and> heap s' = mark_excluded (heap s) (excludedOf (catalogPairs [c]))
            \<and> escapes s' = escapes s"
proof (cases "repairTypes c")
  case None
  then show ?thesis
    by (simp add: category_step_def catalogPairs_def excludedOf_def)
next
  case (Some tors)
  let ?s1 = "s\<lparr>categoriesById :=
                 table_set (categoriesById s) (categoryId c) (categoryId c, title c)\<rparr>"
  have pairs: "catalogPairs [c] = map (Pair (categoryId c)) tors"
    by (simp add: catalogPairs_def Some)
  show ?thesis
  proof (cases tors)
    case Nil
    with Some show ?thesis
      by (simp add: category_step_def catalogPairs_def excludedOf_def)
  next
    case (Cons rt0 tors0)
    from assms have "\<not> inherited env (escapes ?s1) (categoryId c)"
      and "\<forall>rt \<in> set tors. \<not> inherited env (escapes ?s1) (torId rt)"
      by (auto simp: safeIds_def pairs Cons list_all_iff)
    from forEach_repairType_step_safe [OF this, of m] Some show ?thesis
      by (simp add: category_step_def pairs)
  qed
qed

lemma safeIds_Cons:
  "safeIds env s (c # cats) = (safeIds env s [c] \<and> safeIds env s cats)"
  by (simp add: safeIds_def catalogPairs_Cons catalogPairs_def)

lemma safeIds_escapes: "escapes s' = escapes s \<Longrightarrow> safeIds env s' cats = safeIds env s cats"
  by (simp add: safeIds_def)

lemma forEach_category_step_safe:
  assumes "safeIds env s cats"
  shows "\<exists>s'. forEach (category_step env) cats (m, s)
               = Returns (fold putCell (catalogPairs cats) m, s')
            \<and> heap s' = mark_excluded (heap s) (excludedOf (catalogPairs cats))
            \<and> escapes s' = escapes s"
  using assms
proof (induction cats arbitrary: m s)
  case Nil
  show ?case by (simp add: catalogPairs_def excludedOf_def)
next
  case (Cons c cats)
  from Cons.prems safeIds_Cons [of env s c cats]
  have sc: "safeIds env s [c]" and scs: "safeIds env s cats"
    by blast+
  from category_step_safe [OF sc, of m] obtain s1 where
    one: "category_step env c (m, s) = Returns (fold putCell (catalogPairs [c]) m, s1)"
    and h1: "heap s1 = mark_excluded (heap s) (excludedOf (catalogPairs [c]))"
    and e1: "escapes s1 = escapes s"
    by blast
  from scs safeIds_escapes [OF e1, of env cats] have "safeIds env s1 cats"
    by simp
  from Cons.IH [OF this, of "fold putCell (catalogPairs [c]) m"] obtain s' where
    "forEach (category_step env) cats (fold putCell (catalogPairs [c]) m, s1)
       = Returns (fold putCell (catalogPairs cats) (fold putCell (catalogPairs [c]) m), s')"
    and "heap s' = mark_excluded (heap s1) (excludedOf (catalogPairs cats))"
    and "escapes s' = escapes s1"
    by blast
  moreover have "catalogPairs (c # cats) = catalogPairs [c] @ catalogPairs cats"
    by (simp add: catalogPairs_def)
  ultimately show ?case
    using one h1 e1 by (simp add: excludedOf_append mark_excluded_append)
qed

lemma createPartsMatrix_safe:
  assumes cats: "categories s = Some cats" and safe: "safeIds env s cats"
  shows "\<exists>s'. createPartsMatrix env s = Returns s'
            \<and> partsMatrix s' = Some (builtMatrix (catalogPairs cats))
            \<and> torColumns s' = Some (column_order (builtMatrix (catalogPairs cats)))
            \<and> heap s' = mark_excluded (heap s) (excludedOf (catalogPairs cats))"
proof -
  from forEach_category_step_safe [OF safe, of "[]"] obtain s1 where
    "forEach (category_step env) cats ([], s) = Returns (builtMatrix (catalogPairs cats), s1)"
    and "heap s1 = mark_excluded (heap s) (excludedOf (catalogPairs cats))"
    by (auto simp: builtMatrix_def)
  then show ?thesis
    by (simp add: createPartsMatrix_def cats)
qed

lemma createPartsMatrix_Returns:
  assumes cats: "categories s = Some cats" and ret: "createPartsMatrix env s = Returns s'"
  shows "\<exists>m s1. forEach (category_step env) cats ([], s) = Returns (m, s1)
              \<and> s' = s1\<lparr>partsMatrix := Some m, torColumns := Some (column_order m)\<rparr>"
  using ret by (auto simp: createPartsMatrix_def cats split: outcome.splits)

subsection \<open>The lookup tables over every run\<close>

lemma category_step_tables:
  "dom (categoriesById (snd ms)) \<subseteq> dom (categoriesById (snd (final (category_step env c ms))))
   \<and> dom (torsById (snd ms)) \<subseteq> dom (torsById (snd (final (category_step env c ms))))"
proof (cases "repairTypes c")
  case None
  then show ?thesis by (simp add: category_step_def)
next
  case (Some tors)
  obtain m s where ms: "ms = (m, s)" by (cases ms)
  let ?R = "\<lambda>(x :: matrix \<times> state) (y :: matrix \<times> state).
               dom (categoriesById (snd x)) \<subseteq> dom (categoriesById (snd y))
               \<and> dom (torsById (snd x)) \<subseteq> dom (torsById (snd y))"
  let ?s1 = "s\<lparr>categoriesById :=
                 table_set (categoriesById s) (categoryId c) (categoryId c, title c)\<rparr>"
  have "?R (m, ?s1) (final (forEach (repairType_step env (categoryId c)) tors (m, ?s1)))"
  proof (rule forEach_final [where R = ?R])
    fix y x
    show "?R x (final (repairType_step env (categoryId c) y x))"
      using repairType_step_tables [of env "categoryId c" y x] dom_table_set
      by simp
  next
    fix x show "?R x x" by simp
  next
    fix x y z assume "?R x y" "?R y z" then show "?R x z" by blast
  qed
  moreover have "dom (categoriesById s) \<subseteq> dom (categoriesById ?s1)"
    using dom_table_set by simp
  ultimately show ?thesis
    by (simp add: ms category_step_def Some) blast
qed

lemma createPartsMatrix_tables:
  "dom (categoriesById s) \<subseteq> dom (categoriesById (final (createPartsMatrix env s)))
   \<and> dom (torsById s) \<subseteq> dom (torsById (final (createPartsMatrix env s)))"
proof (cases "categories s")
  case None
  then show ?thesis by (simp add: createPartsMatrix_def)
next
  case (Some cats)
  let ?R = "\<lambda>(x :: matrix \<times> state) (y :: matrix \<times> state).
               dom (categoriesById (snd x)) \<subseteq> dom (categoriesById (snd y))
               \<and> dom (torsById (snd x)) \<subseteq> dom (torsById (snd y))"
  have run: "?R ([], s) (final (forEach (category_step env) cats ([], s)))"
  proof (rule forEach_final [where R = ?R])
    fix y x show "?R x (final (category_step env y x))"
      by (rule category_step_tables)
  next
    fix x show "?R x x" by simp
  next
    fix x y z assume "?R x y" "?R y z" then show "?R x z" by blast
  qed
  show ?thesis
  proof (cases "forEach (category_step env) cats ([], s)")
    case (Returns ms)
    with run Some show ?thesis
      by (cases ms) (simp add: createPartsMatrix_def)
  next
    case (Raises e ms)
    with run Some show ?thesis
      by (cases ms) (simp add: createPartsMatrix_def)
  qed
qed

subsection \<open>Cells\<close>

lemma find_Some_holds: "find P xs = Some x \<Longrightarrow> x \<in> set xs \<and> P x"
  by (induction xs) (auto split: if_splits)

lemma lastPair_Some:
  assumes "lastPair pairs cid tid = Some p"
  shows "p \<in> set pairs \<and> fst p = cid \<and> torId (snd p) = tid"
  using find_Some_holds [OF assms [unfolded lastPair_def]] by simp

lemma lastPair_exists:
  assumes "(cid, rt) \<in> set pairs"
  shows "lastPair pairs cid (torId rt) \<noteq> None"
  using assms by (auto simp: lastPair_def find_None_iff)

lemma cell_of_member:
  assumes dk: "distinct (map fst m)" and dr: "distinct (map fst (rowOf m tid))"
    and row: "(tid, row) \<in> set m" and c: "(cid, c) \<in> set row"
  shows "cellAt m tid cid = Some c"
proof -
  from row dk have "js_get m tid = Some row"
    by (simp add: js_get_def)
  then have r: "rowOf m tid = row"
    by (simp add: rowOf_def)
  with dr c have "js_get row cid = Some c"
    by (simp add: js_get_def)
  with r show ?thesis
    by (simp add: cellAt_def)
qed

lemma outcome_Returns: "raised out = None \<Longrightarrow> out = Returns (final out)"
  by (cases out) simp_all

lemmas builder_defs =
  createPartsMatrix_def category_step_def repairType_step_def escapeAt_def putCell_def
  rowOf_def cellOf_def js_get_def table_set_def inherited_def ex_builtins_def
  object_prototype_names_def

lemma ex_input_safe: "safeIds ex_builtins ex_input [ex_category]"
  by (simp add: safeIds_def catalogPairs_def ex_category_def ex_tor_def ex_builtins_def
      inherited_def object_prototype_names_def)

lemma ex_input_run: "createPartsMatrix ex_builtins ex_input = Returns ex_built"
  unfolding ex_built_def
  by (rule outcome_Returns)
     (simp add: builder_defs ex_input_def ex_state_def ex_category_def ex_tor_def)

lemma ex_built_matrix:
  "partsMatrix ex_built = Some [(''T1'', [(''C1'', \<lparr>included = [10], excluded = [11]\<rparr>)])]"
  by (simp add: ex_built_def builder_defs ex_input_def ex_state_def ex_category_def ex_tor_def)

lemma ex_catalog_name_run:
  "raised (createPartsMatrix ex_builtins (ex_state\<lparr>categories := Some ex_catalog_name\<rparr>))
     = Some TypeError
   \<and> partsMatrix (final (createPartsMatrix ex_builtins (ex_state\<lparr>categories := Some ex_catalog_name\<rparr>)))
       = None
   \<and> torColumns (final (createPartsMatrix ex_builtins (ex_state\<lparr>categories := Some ex_catalog_name\<rparr>)))
       = None
   \<and> isExcluded (heap (final (createPartsMatrix ex_builtins
          (ex_state\<lparr>categories := Some ex_catalog_name\<rparr>))) 11) = Some False"
  by (simp add: builder_defs ex_catalog_name_def ex_state_def ex_tor_def ex_heap_def)

lemma ex_catalog_constructor_run:
  "raised (createPartsMatrix ex_builtins (ex_state\<lparr>categories := Some ex_catalog_constructor\<rparr>))
     = None
   \<and> partsMatrix (final (createPartsMatrix ex_builtins
          (ex_state\<lparr>categories := Some ex_catalog_constructor\<rparr>)))
       = Some [(''T1'', [(''C1'', \<lparr>included = [10], excluded = [11]\<rparr>)])]
   \<and> torColumns (final (createPartsMatrix ex_builtins
          (ex_state\<lparr>categories := Some ex_catalog_constructor\<rparr>)))
       = Some [''T1'']
   \<and> escapes (final (createPartsMatrix ex_builtins
          (ex_state\<lparr>categories := Some ex_catalog_constructor\<rparr>)))
       = [ViaRepairType ''constructor'' ''C1'']"
  by (simp add: builder_defs ex_catalog_constructor_def ex_state_def ex_tor_def
      column_order_def js_keys_def own_key_order_def is_array_index_def is_digit_def
      row_count_def)

text \<open>
  C6, as the code has it. Whenever \<^verbatim>\<open>createPartsMatrix\<close> returns on a list of categories,
  there is a matrix; each of its cells holds the included list and the excluded list of a
  repair type of the input as they are (of the last visited repair type with the cell's
  two ids); every part in a cell's excluded list has its exclusion flag set, whatever the
  flag was before; and the store differs from what it was only by the flag of parts in
  visited excluded lists. When no visited id is a name inherited from
  \<^verbatim>\<open>Object.prototype\<close>, it does return, every visited pair of a category and a repair
  type has its cell, and every part in a visited excluded list has the flag set.
\<close>

theorem createPartsMatrix_cells:
  "categories s = Some cats \<Longrightarrow>
   (\<forall>s'. createPartsMatrix env s = Returns s' \<longrightarrow>
      (\<exists>m. partsMatrix s' = Some m
         \<and> (\<forall>(tid, row) \<in> set m. \<forall>(cid, c) \<in> set row.
              \<exists>rt. (cid, rt) \<in> set (catalogPairs cats) \<and> torId rt = tid
                \<and> lastPair (catalogPairs cats) cid tid = Some (cid, rt)
                \<and> included c = partsIncluded rt
                \<and> excluded c = partsExcluded rt
                \<and> (\<forall>a \<in> set (excluded c). isExcluded (heap s' a) = Some True)))
      \<and> (\<forall>a. heap s' a = (heap s a)\<lparr>isExcluded := isExcluded (heap s' a)\<rparr>)
      \<and> (\<forall>a. a \<notin> set (excludedOf (catalogPairs cats)) \<longrightarrow> heap s' a = heap s a))
   \<and> (safeIds env s cats \<longrightarrow>
        (\<exists>s' m. createPartsMatrix env s = Returns s' \<and> partsMatrix s' = Some m
           \<and> (\<forall>(cid, rt) \<in> set (catalogPairs cats). cellAt m (torId rt) cid \<noteq> None)
           \<and> (\<forall>a \<in> set (excludedOf (catalogPairs cats)).
                 isExcluded (heap s' a) = Some True)))"
proof -
  assume cats: "categories s = Some cats"
  let ?pairs = "catalogPairs cats"
  have general: "(\<exists>m. partsMatrix s' = Some m
         \<and> (\<forall>(tid, row) \<in> set m. \<forall>(cid, c) \<in> set row.
              \<exists>rt. (cid, rt) \<in> set ?pairs \<and> torId rt = tid
                \<and> lastPair ?pairs cid tid = Some (cid, rt)
                \<and> included c = partsIncluded rt
                \<and> excluded c = partsExcluded rt
                \<and> (\<forall>a \<in> set (excluded c). isExcluded (heap s' a) = Some True)))
      \<and> (\<forall>a. heap s' a = (heap s a)\<lparr>isExcluded := isExcluded (heap s' a)\<rparr>)
      \<and> (\<forall>a. a \<notin> set (excludedOf ?pairs) \<longrightarrow> heap s' a = heap s a)"
    if ret: "createPartsMatrix env s = Returns s'" for s'
  proof -
    from createPartsMatrix_Returns [OF cats ret] obtain m s1 where
      run: "forEach (category_step env) cats ([], s) = Returns (m, s1)"
      and s': "s' = s1\<lparr>partsMatrix := Some m, torColumns := Some (column_order m)\<rparr>"
      by blast
    from builderInv_run [OF run] have inv: "builderInv (heap s) ?pairs (m, s1)" .
    then have dk: "distinct (map fst m)"
      and dr: "\<And>tid. distinct (map fst (rowOf m tid))"
      and cells: "\<And>tid cid c. cellAt m tid cid = Some c \<Longrightarrow>
              (\<exists>p. lastPair ?pairs cid tid = Some p \<and> c = cellOf (snd p))
              \<and> (\<forall>a \<in> set (excluded c). isExcluded (heap s1 a) = Some True)"
      and store: "\<And>a. heap s1 a = heap s a
                \<or> (a \<in> set (excludedOf ?pairs)
                    \<and> heap s1 a = (heap s a)\<lparr>isExcluded := Some True\<rparr>)"
      by (simp_all add: builderInv_def)
    have hp: "heap s' = heap s1"
      by (simp add: s')
    have cell: "\<exists>rt. (cid, rt) \<in> set ?pairs \<and> torId rt = tid
                \<and> lastPair ?pairs cid tid = Some (cid, rt)
                \<and> included c = partsIncluded rt
                \<and> excluded c = partsExcluded rt
                \<and> (\<forall>a \<in> set (excluded c). isExcluded (heap s' a) = Some True)"
      if row: "(tid, row) \<in> set m" and c: "(cid, c) \<in> set row" for tid row cid c
    proof -
      from dk dr [of tid] row c have "cellAt m tid cid = Some c"
        by (rule cell_of_member)
      from cells [OF this] obtain p where p: "lastPair ?pairs cid tid = Some p"
        and cp: "c = cellOf (snd p)"
        and flag: "\<forall>a \<in> set (excluded c). isExcluded (heap s1 a) = Some True"
        by blast
      from lastPair_Some [OF p] have mem: "p \<in> set ?pairs"
        and ids: "fst p = cid" "torId (snd p) = tid"
        by simp_all
      from ids have pe: "p = (cid, snd p)"
        by (simp add: prod_eq_iff)
      from mem pe have "(cid, snd p) \<in> set ?pairs"
        by simp
      moreover from p pe have "lastPair ?pairs cid tid = Some (cid, snd p)"
        by simp
      ultimately show ?thesis
        using ids flag by (auto simp: cp cellOf_def hp)
    qed
    have "partsMatrix s' = Some m"
      by (simp add: s')
    moreover have "\<forall>(tid, row) \<in> set m. \<forall>(cid, c) \<in> set row.
              \<exists>rt. (cid, rt) \<in> set ?pairs \<and> torId rt = tid
                \<and> lastPair ?pairs cid tid = Some (cid, rt)
                \<and> included c = partsIncluded rt
                \<and> excluded c = partsExcluded rt
                \<and> (\<forall>a \<in> set (excluded c). isExcluded (heap s' a) = Some True)"
      by clarify (erule (1) cell)
    moreover have "heap s' a = (heap s a)\<lparr>isExcluded := isExcluded (heap s' a)\<rparr>" for a
      using store [of a] by (auto simp: hp)
    moreover have "heap s' a = heap s a" if "a \<notin> set (excludedOf ?pairs)" for a
      using store [of a] that by (auto simp: hp)
    ultimately show ?thesis
      by blast
  qed
  have safe: "\<exists>s' m. createPartsMatrix env s = Returns s' \<and> partsMatrix s' = Some m
           \<and> (\<forall>(cid, rt) \<in> set ?pairs. cellAt m (torId rt) cid \<noteq> None)
           \<and> (\<forall>a \<in> set (excludedOf ?pairs). isExcluded (heap s' a) = Some True)"
    if "safeIds env s cats"
  proof -
    from createPartsMatrix_safe [OF cats that] obtain s' where
      ret: "createPartsMatrix env s = Returns s'"
      and m: "partsMatrix s' = Some (builtMatrix ?pairs)"
      and h: "heap s' = mark_excluded (heap s) (excludedOf ?pairs)"
      by blast
    have "cellAt (builtMatrix ?pairs) (torId rt) cid \<noteq> None" if "(cid, rt) \<in> set ?pairs" for cid rt
      using lastPair_exists [OF that] by (simp add: cellAt_builtMatrix)
    then have "\<forall>(cid, rt) \<in> set ?pairs. cellAt (builtMatrix ?pairs) (torId rt) cid \<noteq> None"
      by auto
    moreover have "\<forall>a \<in> set (excludedOf ?pairs). isExcluded (heap s' a) = Some True"
      by (simp add: h mark_excluded_apply)
    ultimately show ?thesis
      using ret m by blast
  qed
  from general safe show ?thesis
    by blast
qed

theorem createPartsMatrix_cells_witness:
  "categories ex_input = Some [ex_category]
   \<and> safeIds ex_builtins ex_input [ex_category]
   \<and> createPartsMatrix ex_builtins ex_input = Returns ex_built
   \<and> partsMatrix ex_built = Some [(''T1'', [(''C1'', \<lparr>included = [10], excluded = [11]\<rparr>)])]
   \<and> partsIncluded ex_tor = [10] \<and> partsExcluded ex_tor = [11]
   \<and> isExcluded (heap ex_input 11) = Some False
   \<and> isExcluded (heap ex_built 11) = Some True
   \<and> isExcluded (heap ex_input 10) = None
   \<and> heap ex_built 10 = heap ex_input 10"
proof -
  have cats: "categories ex_input = Some [ex_category]"
    by (simp add: ex_input_def)
  note th = createPartsMatrix_cells [OF cats, of ex_builtins]
  from th ex_input_run obtain m where
    m: "partsMatrix ex_built = Some m"
    and cells: "\<forall>(tid, row) \<in> set m. \<forall>(cid, c) \<in> set row.
          \<exists>rt. (cid, rt) \<in> set (catalogPairs [ex_category]) \<and> torId rt = tid
            \<and> lastPair (catalogPairs [ex_category]) cid tid = Some (cid, rt)
            \<and> included c = partsIncluded rt
            \<and> excluded c = partsExcluded rt
            \<and> (\<forall>a \<in> set (excluded c). isExcluded (heap ex_built a) = Some True)"
    and frame: "\<forall>a. a \<notin> set (excludedOf (catalogPairs [ex_category])) \<longrightarrow>
                   heap ex_built a = heap ex_input a"
    by blast
  from m ex_built_matrix
  have m': "m = [(''T1'', [(''C1'', \<lparr>included = [10], excluded = [11]\<rparr>)])]"
    by simp
  from cells have flag: "isExcluded (heap ex_built 11) = Some True"
    unfolding m' by auto
  have "excludedOf (catalogPairs [ex_category]) = [11]"
    by (simp add: excludedOf_def catalogPairs_def ex_category_def ex_tor_def)
  with frame have keep: "heap ex_built 10 = heap ex_input 10"
    by simp
  have before: "isExcluded (heap ex_input 11) = Some False" "isExcluded (heap ex_input 10) = None"
    by (simp_all add: ex_input_def ex_state_def ex_heap_def)
  from cats ex_input_safe ex_input_run ex_built_matrix flag keep before show ?thesis
    by (simp add: ex_tor_def)
qed

text \<open>
  C6 as stated fails where the run raises: with the repair-type id \<open>constructor\<close> in
  the category \<open>name\<close>, the test of line 209 finds the function \<^verbatim>\<open>Object\<close>, the test of
  line 213 finds its name, and the assignment of line 217 raises a \<^verbatim>\<open>TypeError\<close>. No
  matrix is assigned, and the part in the excluded list keeps its negated flag.
\<close>

theorem createPartsMatrix_cells_counterexample:
  "raised (createPartsMatrix ex_builtins (ex_state\<lparr>categories := Some ex_catalog_name\<rparr>))
     = Some TypeError
   \<and> partsMatrix (final (createPartsMatrix ex_builtins (ex_state\<lparr>categories := Some ex_catalog_name\<rparr>)))
       = None
   \<and> catalogPairs ex_catalog_name = [(''name'', ex_tor\<lparr>torId := ''constructor''\<rparr>)]
   \<and> partsExcluded (ex_tor\<lparr>torId := ''constructor''\<rparr>) = [11]
   \<and> isExcluded (heap (final (createPartsMatrix ex_builtins
          (ex_state\<lparr>categories := Some ex_catalog_name\<rparr>))) 11) = Some False"
  using ex_catalog_name_run
  by (simp add: catalogPairs_def ex_catalog_name_def ex_tor_def)

subsection \<open>An absent and an empty list of categories\<close>

text \<open>
  C8, as the code has it. When the list of categories is absent, \<^verbatim>\<open>createPartsMatrix\<close>
  returns with the column order set to the empty list and every other field, the matrix
  among them, as it was; when the list is empty it returns with the empty matrix and the
  empty column order. It raises no error on a list none of whose visited ids is a name
  inherited from \<^verbatim>\<open>Object.prototype\<close>.
\<close>

theorem createPartsMatrix_absent_empty:
  "createPartsMatrix env (s\<lparr>categories := None\<rparr>)
     = Returns (s\<lparr>categories := None, torColumns := Some []\<rparr>)
   \<and> createPartsMatrix env (s\<lparr>categories := Some []\<rparr>)
       = Returns (s\<lparr>categories := Some [], partsMatrix := Some [], torColumns := Some []\<rparr>)
   \<and> (categories s = Some cats \<and> safeIds env s cats
        \<longrightarrow> raised (createPartsMatrix env s) = None)"
proof (intro conjI impI)
  show "createPartsMatrix env (s\<lparr>categories := None\<rparr>)
     = Returns (s\<lparr>categories := None, torColumns := Some []\<rparr>)"
    by (simp add: createPartsMatrix_def)
  show "createPartsMatrix env (s\<lparr>categories := Some []\<rparr>)
       = Returns (s\<lparr>categories := Some [], partsMatrix := Some [], torColumns := Some []\<rparr>)"
    by (simp add: createPartsMatrix_def column_order_def js_keys_def own_key_order_def)
next
  assume "categories s = Some cats \<and> safeIds env s cats"
  then obtain s' where "createPartsMatrix env s = Returns s'"
    using createPartsMatrix_safe [of s cats env] by blast
  then show "raised (createPartsMatrix env s) = None"
    by simp
qed

theorem createPartsMatrix_absent_empty_witness:
  "torColumns (final (createPartsMatrix ex_builtins (ex_built\<lparr>categories := None\<rparr>))) = Some []
   \<and> torColumns (final (createPartsMatrix ex_builtins (ex_built\<lparr>categories := Some []\<rparr>))) = Some []
   \<and> partsMatrix (final (createPartsMatrix ex_builtins (ex_built\<lparr>categories := None\<rparr>)))
       = partsMatrix ex_built
   \<and> partsMatrix (final (createPartsMatrix ex_builtins (ex_built\<lparr>categories := Some []\<rparr>)))
       = Some []
   \<and> categories ex_input = Some [ex_category]
   \<and> safeIds ex_builtins ex_input [ex_category]
   \<and> raised (createPartsMatrix ex_builtins ex_input) = None"
proof -
  have cats: "categories ex_input = Some [ex_category]"
    by (simp add: ex_input_def)
  from createPartsMatrix_absent_empty [where env = ex_builtins and s = ex_built]
       createPartsMatrix_absent_empty
         [where env = ex_builtins and s = ex_input and cats = "[ex_category]"]
       cats ex_input_safe
  show ?thesis by simp
qed

text \<open>
  C8 as stated fails twice. On an absent list the matrix is not the empty matrix: in a
  new component it stays unset, and after a build it stays the matrix of that build. And
  the run can raise on a list of the stated shape: with the repair-type id
  \<open>constructor\<close> in the category \<open>name\<close> it raises a \<^verbatim>\<open>TypeError\<close>.
\<close>

theorem createPartsMatrix_absent_counterexample:
  "partsMatrix (final (createPartsMatrix ex_builtins (ex_state\<lparr>categories := None\<rparr>))) = None
   \<and> partsMatrix (final (createPartsMatrix ex_builtins (ex_state\<lparr>categories := Some []\<rparr>)))
       = Some []
   \<and> partsMatrix (final (createPartsMatrix ex_builtins (ex_built\<lparr>categories := None\<rparr>)))
       = Some [(''T1'', [(''C1'', \<lparr>included = [10], excluded = [11]\<rparr>)])]
   \<and> partsMatrix (final (createPartsMatrix ex_builtins (ex_built\<lparr>categories := Some []\<rparr>)))
       = Some []
   \<and> raised (createPartsMatrix ex_builtins (ex_state\<lparr>categories := Some ex_catalog_name\<rparr>))
       = Some TypeError"
  using ex_catalog_name_run
  by (simp add: createPartsMatrix_def ex_built_matrix) (simp add: ex_state_def)

subsection \<open>The lookup tables\<close>

text \<open>
  C9. Over two calls of \<^verbatim>\<open>createPartsMatrix\<close>, with any lists of categories and however
  the calls end, every id that has an entry in \<^verbatim>\<open>categoriesById\<close> or in \<^verbatim>\<open>torsById\<close>
  after the first call has one after the second.
\<close>

theorem lookup_tables_grow:
  "dom (categoriesById (final (createPartsMatrix env (s\<lparr>categories := cs1\<rparr>))))
     \<subseteq> dom (categoriesById (final (createPartsMatrix env
            ((final (createPartsMatrix env (s\<lparr>categories := cs1\<rparr>)))\<lparr>categories := cs2\<rparr>))))
   \<and> dom (torsById (final (createPartsMatrix env (s\<lparr>categories := cs1\<rparr>))))
     \<subseteq> dom (torsById (final (createPartsMatrix env
            ((final (createPartsMatrix env (s\<lparr>categories := cs1\<rparr>)))\<lparr>categories := cs2\<rparr>))))"
  using createPartsMatrix_tables
          [of "(final (createPartsMatrix env (s\<lparr>categories := cs1\<rparr>)))\<lparr>categories := cs2\<rparr>" env]
  by simp

theorem lookup_tables_grow_witness:
  "categoriesById ex_state ''C1'' = None
   \<and> ''C1'' \<in> dom (categoriesById ex_built)
   \<and> ''T1'' \<in> dom (torsById ex_built)
   \<and> ''C1'' \<in> dom (categoriesById (final (createPartsMatrix ex_builtins
        (ex_built\<lparr>categories := Some []\<rparr>))))
   \<and> ''T1'' \<in> dom (torsById (final (createPartsMatrix ex_builtins
        (ex_built\<lparr>categories := Some []\<rparr>))))"
proof -
  have b: "ex_built = final (createPartsMatrix ex_builtins (ex_state\<lparr>categories := Some [ex_category]\<rparr>))"
    by (simp add: ex_built_def ex_input_def)
  have a: "''C1'' \<in> dom (categoriesById ex_built)" "''T1'' \<in> dom (torsById ex_built)"
    by (simp_all add: ex_built_def builder_defs ex_input_def ex_state_def ex_category_def
        ex_tor_def)
  have c: "categoriesById ex_state ''C1'' = None"
    by (simp add: ex_state_def)
  from lookup_tables_grow [of ex_builtins "Some [ex_category]" ex_state "Some []"] a c
  show ?thesis
    unfolding b [symmetric] by blast
qed

subsection \<open>The column order\<close>

lemma insort_key_map:
  "insort_key g (h x) (map h ys) = map h (insort_key (\<lambda>y. g (h y)) x ys)"
  by (induction ys) simp_all

lemma sort_key_map: "sort_key g (map h xs) = map h (sort_key (\<lambda>y. g (h y)) xs)"
  by (induction xs) (simp_all add: insort_key_map)

lemma column_order_sort:
  "column_order m = sort_key (\<lambda>k. - int (row_count m k)) (js_keys m)"
  by (simp add: column_order_def sort_key_map comp_def)

lemma row_count_builtMatrix:
  "row_count (builtMatrix pairs) tid = length (remdups (categoriesOf pairs tid))"
proof -
  have "row_count (builtMatrix pairs) tid
        = length (own_key_order (map fst (rowOf (builtMatrix pairs) tid)))"
    by (simp add: row_count_def rowOf_def js_keys_def)
  also have "\<dots> = length (firstSeen (categoriesOf pairs tid))"
    by (simp add: length_own_key_order row_keys_builtMatrix del: length_map)
  finally show ?thesis
    by (simp add: length_firstSeen)
qed

lemma column_order_builtMatrix:
  "column_order (builtMatrix (catalogPairs cats))
   = sort_key (\<lambda>k. - int (categoryCount cats k)) (own_key_order (torIdsSeen cats))"
  by (simp add: column_order_sort row_count_builtMatrix categoryCount_def js_keys_def
      keys_builtMatrix torIdsSeen_def comp_def)

lemma placedBefore_sorted:
  assumes srt: "sorted_wrt (\<lambda>x y. f y \<le> (f x :: nat)) xs"
    and a: "a \<in> set xs" and b: "b \<in> set xs" and lt: "f b < f a"
  shows "placedBefore a b xs"
proof -
  from a obtain us vs where xs: "xs = us @ a # vs" and first: "a \<notin> set us"
    by (auto dest: split_list_first)
  have dw: "dropWhile (\<lambda>x. x \<noteq> a) xs = a # vs"
    using first by (auto simp: xs dropWhile_append3)
  have "b \<notin> set us"
  proof
    assume "b \<in> set us"
    with srt have "f a \<le> f b"
      by (auto simp: xs sorted_wrt_append)
    with lt show False by simp
  qed
  moreover from lt have "b \<noteq> a" by auto
  ultimately have "b \<in> set vs"
    using b by (simp add: xs)
  then show ?thesis
    by (simp add: placedBefore_def dw)
qed

lemma ex_catalog3_eval:
  "catalogPairs ex_catalog3
   = [(''C1'', ex_tor_named ''TB''), (''C1'', ex_tor_named ''TA''),
      (''C2'', ex_tor_named ''TA''), (''C3'', ex_tor_named ''TA'')]"
  by (simp add: ex_catalog3_def catalogPairs_def)

lemma ex_catalog3_counts:
  "categoryCount ex_catalog3 ''TA'' = 3" "categoryCount ex_catalog3 ''TB'' = 1"
  "torIdsSeen ex_catalog3 = [''TB'', ''TA'']"
  by (simp_all add: categoryCount_def torIdsSeen_def firstSeen_def categoriesOf_def
      ex_catalog3_eval ex_tor_named_def)

lemma ex_catalog3_safe: "safeIds ex_builtins (ex_state\<lparr>categories := Some ex_catalog3\<rparr>) ex_catalog3"
  by (simp add: safeIds_def ex_catalog3_eval ex_tor_named_def ex_builtins_def
      inherited_def object_prototype_names_def)

lemma ex_catalog3_columns:
  "torColumns (final (createPartsMatrix ex_builtins (ex_state\<lparr>categories := Some ex_catalog3\<rparr>)))
     = Some [''TA'', ''TB'']"
  by (simp add: builder_defs ex_catalog3_def ex_tor_named_def column_order_def js_keys_def
      own_key_order_def is_array_index_def is_digit_def row_count_def)

lemma ex_catalog_numeric_columns:
  "torColumns (final (createPartsMatrix ex_builtins
      (ex_state\<lparr>categories := Some ex_catalog_numeric\<rparr>))) = Some [''1'', ''2'']"
  by (simp add: builder_defs ex_catalog_numeric_def ex_tor_named_def column_order_def
      js_keys_def own_key_order_def is_array_index_def is_digit_def row_count_def)

lemma ex_catalog_numeric_counts:
  "categoryCount ex_catalog_numeric ''1'' = 1" "categoryCount ex_catalog_numeric ''2'' = 1"
  "torIdsSeen ex_catalog_numeric = [''2'', ''1'']"
  by (simp_all add: categoryCount_def torIdsSeen_def firstSeen_def categoriesOf_def
      catalogPairs_def ex_catalog_numeric_def ex_tor_named_def)

lemma ex_catalog_numeric_safe:
  "safeIds ex_builtins (ex_state\<lparr>categories := Some ex_catalog_numeric\<rparr>) ex_catalog_numeric"
  by (simp add: safeIds_def catalogPairs_def ex_catalog_numeric_def ex_tor_named_def
      ex_builtins_def inherited_def object_prototype_names_def)

text \<open>
  C7, as the code has it. On a list of categories none of whose visited ids is a name
  inherited from \<^verbatim>\<open>Object.prototype\<close>, \<^verbatim>\<open>createPartsMatrix\<close> returns and the column order
  lists every visited repair-type id once, an id in more distinct categories before an
  id in fewer. Ids in the same number of categories stand in the order in which
  \<^verbatim>\<open>Object.keys\<close> lists the keys of the matrix: the ids that are array indices first, in
  ascending numeric order, then the other ids in the order of their first visit. When no
  id is an array index, ids in the same number of categories stand in the order of their
  first visit.
\<close>

theorem createPartsMatrix_columns:
  "categories s = Some cats \<Longrightarrow> safeIds env s cats \<Longrightarrow>
   \<exists>s' cols. createPartsMatrix env s = Returns s' \<and> torColumns s' = Some cols
     \<and> distinct cols \<and> set cols = set (torIdsSeen cats)
     \<and> sorted_wrt (\<lambda>a b. categoryCount cats b \<le> categoryCount cats a) cols
     \<and> (\<forall>n. filter (\<lambda>k. categoryCount cats k = n) cols
            = filter (\<lambda>k. categoryCount cats k = n) (own_key_order (torIdsSeen cats)))
     \<and> ((\<forall>k \<in> set (torIdsSeen cats). \<not> is_array_index k) \<longrightarrow>
          (\<forall>n. filter (\<lambda>k. categoryCount cats k = n) cols
             = filter (\<lambda>k. categoryCount cats k = n) (torIdsSeen cats)))
     \<and> (\<forall>a \<in> set cols. \<forall>b \<in> set cols.
           categoryCount cats b < categoryCount cats a \<longrightarrow> placedBefore a b cols)"
proof -
  assume cats: "categories s = Some cats" and safe: "safeIds env s cats"
  let ?keys = "own_key_order (torIdsSeen cats)"
  let ?cols = "sort_key (\<lambda>k. - int (categoryCount cats k)) ?keys"
  from createPartsMatrix_safe [OF cats safe] obtain s' where
    ret: "createPartsMatrix env s = Returns s'"
    and cols: "torColumns s' = Some ?cols"
    by (auto simp: column_order_builtMatrix)
  have dist: "distinct ?cols"
    by (simp add: distinct_own_key_order torIdsSeen_def distinct_firstSeen)
  have mem: "set ?cols = set (torIdsSeen cats)"
    by (simp add: set_own_key_order)
  have "sorted (map (\<lambda>k. - int (categoryCount cats k)) ?cols)"
    by (rule sorted_sort_key)
  then have srt: "sorted_wrt (\<lambda>a b. categoryCount cats b \<le> categoryCount cats a) ?cols"
    by (simp add: sorted_map)
  have ties: "filter (\<lambda>k. categoryCount cats k = n) ?cols
            = filter (\<lambda>k. categoryCount cats k = n) ?keys" for n
    using sort_key_stable [of "\<lambda>k. - int (categoryCount cats k)" "- int n" ?keys]
    by simp
  have plain: "filter (\<lambda>k. categoryCount cats k = n) ?cols
            = filter (\<lambda>k. categoryCount cats k = n) (torIdsSeen cats)"
    if "\<forall>k \<in> set (torIdsSeen cats). \<not> is_array_index k" for n
    using ties [of n] own_key_order_plain [OF that] by simp
  have before: "placedBefore a b ?cols"
    if "a \<in> set ?cols" "b \<in> set ?cols" "categoryCount cats b < categoryCount cats a" for a b
    using srt that by (rule placedBefore_sorted)
  show ?thesis
  proof (intro exI [of _ s'] exI [of _ ?cols] conjI allI impI ballI)
    show "createPartsMatrix env s = Returns s'" by (rule ret)
    show "torColumns s' = Some ?cols" by (rule cols)
    show "distinct ?cols" by (rule dist)
    show "set ?cols = set (torIdsSeen cats)" by (rule mem)
    show "sorted_wrt (\<lambda>a b. categoryCount cats b \<le> categoryCount cats a) ?cols" by (rule srt)
    show "filter (\<lambda>k. categoryCount cats k = n) ?cols
            = filter (\<lambda>k. categoryCount cats k = n) ?keys" for n by (rule ties)
    show "filter (\<lambda>k. categoryCount cats k = n) ?cols
            = filter (\<lambda>k. categoryCount cats k = n) (torIdsSeen cats)"
      if "\<forall>k \<in> set (torIdsSeen cats). \<not> is_array_index k" for n
      using that by (rule plain)
    show "placedBefore a b ?cols"
      if "a \<in> set ?cols" "b \<in> set ?cols" "categoryCount cats b < categoryCount cats a" for a b
      using that by (rule before)
  qed
qed

theorem createPartsMatrix_columns_witness:
  "categories (ex_state\<lparr>categories := Some ex_catalog3\<rparr>) = Some ex_catalog3
   \<and> safeIds ex_builtins (ex_state\<lparr>categories := Some ex_catalog3\<rparr>) ex_catalog3
   \<and> torIdsSeen ex_catalog3 = [''TB'', ''TA'']
   \<and> categoryCount ex_catalog3 ''TA'' = 3
   \<and> categoryCount ex_catalog3 ''TB'' = 1
   \<and> torColumns (final (createPartsMatrix ex_builtins (ex_state\<lparr>categories := Some ex_catalog3\<rparr>)))
       = Some [''TA'', ''TB'']
   \<and> placedBefore ''TA'' ''TB'' [''TA'', ''TB'']"
proof -
  let ?s = "ex_state\<lparr>categories := Some ex_catalog3\<rparr>"
  have cats: "categories ?s = Some ex_catalog3"
    by simp
  from createPartsMatrix_columns [OF cats ex_catalog3_safe] obtain s' cols where
    ret: "createPartsMatrix ex_builtins ?s = Returns s'"
    and cols: "torColumns s' = Some cols"
    and mem: "set cols = set (torIdsSeen ex_catalog3)"
    and before: "\<forall>a \<in> set cols. \<forall>b \<in> set cols.
           categoryCount ex_catalog3 b < categoryCount ex_catalog3 a \<longrightarrow> placedBefore a b cols"
    by blast
  from ret cols ex_catalog3_columns have c: "cols = [''TA'', ''TB'']"
    by simp
  from mem have "''TA'' \<in> set cols" "''TB'' \<in> set cols"
    by (simp_all add: ex_catalog3_counts)
  with before have "placedBefore ''TA'' ''TB'' cols"
    by (simp add: ex_catalog3_counts)
  with c cats ex_catalog3_columns ex_catalog3_safe show ?thesis
    by (simp add: ex_catalog3_counts)
qed

text \<open>
  C7 as stated fails twice. On ties when ids are array indices: with the repair types
  \<open>2\<close> and \<open>1\<close> of one category, visited in this order and each in one category, the
  column order is \<open>1\<close>, \<open>2\<close>. And when an id is a name inherited from
  \<^verbatim>\<open>Object.prototype\<close>: the repair type \<open>constructor\<close>, visited before \<open>T1\<close> in the same
  category, gets no row and no column.
\<close>

theorem createPartsMatrix_columns_counterexample:
  "torIdsSeen ex_catalog_numeric = [''2'', ''1'']
   \<and> categoryCount ex_catalog_numeric ''2'' = 1
   \<and> categoryCount ex_catalog_numeric ''1'' = 1
   \<and> torColumns (final (createPartsMatrix ex_builtins
        (ex_state\<lparr>categories := Some ex_catalog_numeric\<rparr>))) = Some [''1'', ''2'']
   \<and> torIdsSeen ex_catalog_constructor = [''constructor'', ''T1'']
   \<and> raised (createPartsMatrix ex_builtins (ex_state\<lparr>categories := Some ex_catalog_constructor\<rparr>))
       = None
   \<and> torColumns (final (createPartsMatrix ex_builtins
        (ex_state\<lparr>categories := Some ex_catalog_constructor\<rparr>))) = Some [''T1'']"
proof -
  have "torIdsSeen ex_catalog_constructor = [''constructor'', ''T1'']"
    by (simp add: torIdsSeen_def firstSeen_def catalogPairs_def ex_catalog_constructor_def
        ex_tor_def)
  with ex_catalog_constructor_run ex_catalog_numeric_columns ex_catalog_numeric_counts
  show ?thesis by simp
qed

end
